theory Spec2Isabelle
  imports Main "HOL-Library.List_Lexorder" "HOL-Library.Char_ord"
begin

text \<open>
  CollegeVault gates the download of a secure document behind a password check and a
  one-time code. The repository has the flow twice: routes that keep codes in memory
  (server/routes/auth.ts, server/routes/documents.ts) and routes that keep them in the
  SQLite table \<^verbatim>\<open>otp_sessions\<close> (src/unnamed/part_010 over server/database/database.ts).
  Both are modelled: a handler is a function from the state, the request and what the
  environment supplies (the clock, the random numbers, the providers' answers) to the
  response and the new state. The definitions come first, the theorems after them.
\<close>

section \<open>Text produced by the runtime: numbers, dates, base64\<close>

text \<open>
  Strings are lists of bytes. The identifiers, codes and tokens of this program are ASCII,
  where a byte is a character and UTF-8 encoding and decoding change nothing.
\<close>

definition digit :: "nat \<Rightarrow> char" where
  "digit d = ''0123456789'' ! (d mod 10)"

text \<open>\<^verbatim>\<open>Number.prototype.toString()\<close> on a non-negative integer such as \<^verbatim>\<open>Date.now()\<close>.\<close>

fun dec :: "nat \<Rightarrow> string" where
  "dec n = (if n < 10 then [digit n] else dec (n div 10) @ [digit n])"

declare dec.simps [simp del]

definition pad2 :: "nat \<Rightarrow> string" where
  "pad2 n = [digit (n div 10), digit n]"

definition pad3 :: "nat \<Rightarrow> string" where
  "pad3 n = [digit (n div 100), digit (n div 10), digit n]"

definition pad4 :: "nat \<Rightarrow> string" where
  "pad4 n = [digit (n div 1000), digit (n div 100), digit (n div 10), digit n]"

text \<open>
  The calendar date (year, month, day) of a day number counted from 1970-01-01, in the
  proleptic Gregorian calendar that both JavaScript and SQLite use.
\<close>

definition civil_of_doy :: "nat \<Rightarrow> nat \<Rightarrow> nat \<Rightarrow> nat \<times> nat \<times> nat" where
  "civil_of_doy y doy mp =
     (if mp < 10 then (y, mp + 3, doy - (153 * mp + 2) div 5 + 1)
      else (y + 1, mp - 9, doy - (153 * mp + 2) div 5 + 1))"

definition civil_of_yoe :: "nat \<Rightarrow> nat \<Rightarrow> nat \<Rightarrow> nat \<times> nat \<times> nat" where
  "civil_of_yoe era doe yoe =
     civil_of_doy (yoe + era * 400) (doe - (365 * yoe + yoe div 4 - yoe div 100))
       ((5 * (doe - (365 * yoe + yoe div 4 - yoe div 100)) + 2) div 153)"

definition civil_of_doe :: "nat \<Rightarrow> nat \<Rightarrow> nat \<times> nat \<times> nat" where
  "civil_of_doe era doe =
     civil_of_yoe era doe ((doe - doe div 1460 + doe div 36524 - doe div 146096) div 365)"

definition civil_from_days :: "nat \<Rightarrow> nat \<times> nat \<times> nat" where
  "civil_from_days days =
     civil_of_doe ((days + 719468) div 146097) ((days + 719468) mod 146097)"

definition date_text :: "nat \<Rightarrow> string" where
  "date_text ms = (case civil_from_days (ms div 86400000) of
                     (y, m, d) \<Rightarrow> pad4 y @ ''-'' @ pad2 m @ ''-'' @ pad2 d)"

definition clock_of :: "nat \<Rightarrow> string" where
  "clock_of r = pad2 (r div 3600000) @ '':'' @ pad2 (r div 60000 mod 60) @ '':'' @
                pad2 (r div 1000 mod 60)"

definition clock_text :: "nat \<Rightarrow> string" where
  "clock_text ms = clock_of (ms mod 86400000)"

text \<open>
  \<^verbatim>\<open>new Date(ms).toISOString()\<close>: \<^verbatim>\<open>YYYY-MM-DDTHH:mm:ss.sssZ\<close> (for the years 1970 to 9999).
\<close>

definition toISOString :: "nat \<Rightarrow> string" where
  "toISOString ms = date_text ms @ ''T'' @ clock_text ms @ ''.'' @ pad3 (ms mod 1000) @ ''Z''"

text \<open>
  SQLite's \<^verbatim>\<open>datetime('now')\<close> and \<^verbatim>\<open>CURRENT_TIMESTAMP\<close> at the instant \<open>ms\<close>:
  \<^verbatim>\<open>YYYY-MM-DD HH:MM:SS\<close>, in UTC, the fraction of the second dropped.
\<close>

definition sqlite_datetime :: "nat \<Rightarrow> string" where
  "sqlite_datetime ms = date_text ms @ '' '' @ clock_text ms"

text \<open>
  \<^verbatim>\<open>Buffer.from(s).toString('base64')\<close>: three bytes become four characters of the
  alphabet \<^verbatim>\<open>A-Z a-z 0-9 + /\<close> (\<open>b64code\<close> is the character code of a six-bit value), the
  last group is padded with \<^verbatim>\<open>=\<close>.
\<close>

definition b64code :: "nat \<Rightarrow> nat" where
  "b64code n =
     (if n < 26 then n + 65
      else if n < 52 then n + 71
      else if n < 62 then n - 4
      else if n = 62 then 43
      else 47)"

definition b64char :: "nat \<Rightarrow> char" where
  "b64char n = char_of (b64code n)"

definition enc3 :: "nat \<Rightarrow> nat \<Rightarrow> nat \<Rightarrow> string" where
  "enc3 x y z = [b64char (x div 4), b64char ((x mod 4) * 16 + y div 16),
                 b64char ((y mod 16) * 4 + z div 64), b64char (z mod 64)]"

definition enc2 :: "nat \<Rightarrow> nat \<Rightarrow> string" where
  "enc2 x y = [b64char (x div 4), b64char ((x mod 4) * 16 + y div 16),
               b64char ((y mod 16) * 4), CHR ''='']"

definition enc1 :: "nat \<Rightarrow> string" where
  "enc1 x = [b64char (x div 4), b64char ((x mod 4) * 16), CHR ''='', CHR ''='']"

fun base64_encode :: "string \<Rightarrow> string" where
  "base64_encode (a # b # c # rest) = enc3 (of_char a) (of_char b) (of_char c) @ base64_encode rest"
| "base64_encode [a, b] = enc2 (of_char a) (of_char b)"
| "base64_encode [a] = enc1 (of_char a)"
| "base64_encode [] = []"

text \<open>
  \<^verbatim>\<open>Buffer.from(s, 'base64')\<close> never throws: Node's decoder skips every character outside
  the alphabet (it also reads the URL-safe \<^verbatim>\<open>-\<close> and \<^verbatim>\<open>_\<close>), stops at the first \<^verbatim>\<open>=\<close>, and
  turns what it has read into bytes, a trailing group of two or three characters giving
  one or two bytes.
\<close>

definition unbase64_code :: "nat \<Rightarrow> nat option" where
  "unbase64_code n =
     (if 65 \<le> n \<and> n \<le> 90 then Some (n - 65)
      else if 97 \<le> n \<and> n \<le> 122 then Some (n - 71)
      else if 48 \<le> n \<and> n \<le> 57 then Some (n + 4)
      else if n = 43 \<or> n = 45 then Some 62
      else if n = 47 \<or> n = 95 then Some 63
      else None)"

definition unbase64 :: "char \<Rightarrow> nat option" where
  "unbase64 c = unbase64_code (of_char c)"

fun sextets :: "string \<Rightarrow> nat list" where
  "sextets [] = []"
| "sextets (c # cs) =
     (case unbase64 c of
        Some n \<Rightarrow> n # sextets cs
      | None \<Rightarrow> if c = CHR ''='' then [] else sextets cs)"

fun unsextets :: "nat list \<Rightarrow> nat list" where
  "unsextets (a # b # c # d # r) =
     (a * 4 + b div 16) # ((b mod 16) * 16 + c div 4) # ((c mod 4) * 64 + d) # unsextets r"
| "unsextets [a, b, c] = [a * 4 + b div 16, (b mod 16) * 16 + c div 4]"
| "unsextets [a, b] = [a * 4 + b div 16]"
| "unsextets [a] = []"
| "unsextets [] = []"

definition base64_decode :: "string \<Rightarrow> string" where
  "base64_decode s = map char_of (unsextets (sextets s))"

text \<open>\<^verbatim>\<open>s.split(':')[0]\<close>: the part of \<open>s\<close> before its first colon, all of \<open>s\<close> if it has none.\<close>

definition split_colon_first :: "string \<Rightarrow> string" where
  "split_colon_first s = takeWhile (\<lambda>c. c \<noteq> CHR '':'') s"


section \<open>Accounts, bearer tokens, responses, environment\<close>

text \<open>A user record (\<^verbatim>\<open>User\<close> in shared/api.ts with the stored password hash); \<open>usr_id\<close> is its \<^verbatim>\<open>id\<close>.\<close>

record User =
  usr_id :: string
  name :: string
  email :: string
  phone :: string
  password :: string

text \<open>\<^verbatim>\<open>users.find(user => user.id === id)\<close> and \<^verbatim>\<open>SELECT * FROM users WHERE id = ?\<close>.\<close>

definition findUserById :: "User list \<Rightarrow> string \<Rightarrow> User option" where
  "findUserById us ident = find (\<lambda>u. usr_id u = ident) us"

text \<open>
  What a handler reads from the \<^verbatim>\<open>Authorization\<close> header: no header or no \<^verbatim>\<open>Bearer\<close>
  prefix; a token on which \<^verbatim>\<open>JSON.parse(Buffer.from(token, 'base64').toString())\<close> throws;
  a token whose JSON is \<^verbatim>\<open>null\<close>, on which reading \<^verbatim>\<open>decoded.exp\<close> throws (the handlers of
  the auth routes then answer from their outer \<^verbatim>\<open>catch\<close>, \<^verbatim>\<open>getUserFromToken\<close> from its own);
  or the decoded object with its \<^verbatim>\<open>userId\<close>, a string, and its \<^verbatim>\<open>exp\<close>, a number.
\<close>

datatype bearer = NoBearer | Malformed | JsonNull | Claims string nat

text \<open>The JSON body of a response with the HTTP status it is sent with.\<close>

record response =
  status :: nat
  success :: bool
  message :: string

definition reply :: "nat \<Rightarrow> bool \<Rightarrow> string \<Rightarrow> response" where
  "reply st ok msg = \<lparr>status = st, success = ok, message = msg\<rparr>"

text \<open>
  The environment of one request: which of the configuration variables are set,
  \<^verbatim>\<open>bcrypt.compare\<close>, and whether the mail and the SMS provider accept the message
  handed to them (\<^verbatim>\<open>sendMail\<close> and \<^verbatim>\<open>messages.create\<close> resolve rather than reject).
\<close>

record environment =
  SMTP_HOST :: bool
  SMTP_PORT :: bool
  SMTP_USER :: bool
  SMTP_PASS :: bool
  TWILIO_ACCOUNT_SID :: bool
  TWILIO_AUTH_TOKEN :: bool
  TWILIO_PHONE_NUMBER :: bool
  bcrypt_compare :: "string \<Rightarrow> string \<Rightarrow> bool"
  smtp_accepts :: bool
  twilio_accepts :: bool

text \<open>A message that a provider accepted: the address or number it went to and the code in it.\<close>

datatype delivery = ByEmail string string | BySms string string

record OTPResult =
  result_success :: bool
  result_message :: string
  emailSent :: bool
  smsSent :: bool

definition deliveries :: "OTPResult \<Rightarrow> string \<Rightarrow> string \<Rightarrow> string \<Rightarrow> delivery list" where
  "deliveries res address number otp =
     (if emailSent res then [ByEmail address otp] else []) @
     (if smsSent res then [BySms number otp] else [])"

text \<open>
  The number \<^verbatim>\<open>sendOTPSMS\<close> of productionOtpService.ts sends to:
  \<^verbatim>\<open>phone.startsWith('+') ? phone : `+${phone.replace(/\D/g, '')}`\<close>.
\<close>

definition is_digit :: "char \<Rightarrow> bool" where
  "is_digit c = (48 \<le> (of_char c :: nat) \<and> (of_char c :: nat) \<le> 57)"

definition formattedPhone :: "string \<Rightarrow> string" where
  "formattedPhone p =
     (case p of
        [] \<Rightarrow> CHR ''+'' # filter is_digit p
      | c # cs \<Rightarrow> if c = CHR ''+'' then p else CHR ''+'' # filter is_digit p)"

text \<open>\<^verbatim>\<open>Math.floor(100000 + Math.random() * 900000).toString()\<close>, where \<open>100000 + r\<close> is the
  integer that \<^verbatim>\<open>Math.floor\<close> returns.\<close>

definition generateOTP :: "nat \<Rightarrow> string" where
  "generateOTP r = dec (100000 + r)"

section \<open>The one-time-code ledger (server/database/database.ts, table otp_sessions)\<close>

text \<open>
  A row of the table \<^verbatim>\<open>otp_sessions\<close> (schema.sql, interface \<^verbatim>\<open>OTPSession\<close>).
  The column \<^verbatim>\<open>id\<close> is called \<open>sess_id\<close> here, since \<open>id\<close> is the identity function of HOL.
  The columns \<^verbatim>\<open>expires_at\<close> and \<^verbatim>\<open>created_at\<close> hold text: the handler stores the result of
  \<^verbatim>\<open>toISOString()\<close> in the first and SQLite stores \<^verbatim>\<open>CURRENT_TIMESTAMP\<close> in the second.
  The table is the list of its rows in insertion order.
\<close>

record OTPSession =
  sess_id :: string
  user_id :: string
  otp_code :: string
  purpose :: string
  expires_at :: string
  used :: bool
  created_at :: string

text \<open>
  \<^verbatim>\<open>otpService.markAsUsed\<close>:
  \<^verbatim>\<open>UPDATE otp_sessions SET used = 1 WHERE id = ?\<close>, returning \<^verbatim>\<open>result.changes > 0\<close>.
  The statement has no condition on \<^verbatim>\<open>used\<close>, and SQLite counts in \<^verbatim>\<open>changes\<close> every row
  the \<^verbatim>\<open>WHERE\<close> clause selects, whether or not the stored value differs from the new one.
  The function returns the flag and the updated table.
\<close>

definition markAsUsed :: "OTPSession list \<Rightarrow> string \<Rightarrow> bool \<times> OTPSession list" where
  "markAsUsed rows i =
     (let changes = length (filter (\<lambda>r. sess_id r = i) rows)
      in (changes > 0, map (\<lambda>r. if sess_id r = i then r\<lparr>used := True\<rparr> else r) rows))"

section \<open>The delivery services\<close>

text \<open>
  services/otpService.ts (src/unnamed/part_012), used by the in-memory routes; its
  functions carry the prefix \<open>dev\<close>. A send returns its \<^verbatim>\<open>success\<close> flag and message.
\<close>

definition dev_sendOTPEmail :: "environment \<Rightarrow> bool \<times> string" where
  "dev_sendOTPEmail env =
     (if \<not> SMTP_USER env \<or> \<not> SMTP_PASS env then (False, ''Email service not configured'')
      else if smtp_accepts env then (True, ''Email sent successfully'')
      else (False, ''Failed to send email''))"

definition dev_sendOTPSMS :: "environment \<Rightarrow> bool \<times> string" where
  "dev_sendOTPSMS env =
     (if \<not> (TWILIO_ACCOUNT_SID env \<and> TWILIO_AUTH_TOKEN env) \<or> \<not> TWILIO_PHONE_NUMBER env
      then (False, ''SMS service not configured'')
      else if twilio_accepts env then (True, ''SMS sent successfully'')
      else (False, ''Failed to send SMS''))"

definition dev_classify :: "bool \<Rightarrow> bool \<Rightarrow> OTPResult" where
  "dev_classify e s =
     \<lparr>result_success = (e \<or> s),
      result_message =
        (if e \<and> s then ''OTP sent to both email and phone successfully''
         else if e then ''OTP sent to email successfully (SMS failed)''
         else if s then ''OTP sent to phone successfully (Email failed)''
         else ''Failed to send OTP to both email and phone''),
      emailSent = e, smsSent = s\<rparr>"

definition dev_sendOTPToEmailAndPhone :: "environment \<Rightarrow> OTPResult" where
  "dev_sendOTPToEmailAndPhone env = dev_classify (fst (dev_sendOTPEmail env)) (fst (dev_sendOTPSMS env))"

text \<open>
  server/services/productionOtpService.ts, used by the database routes; prefix \<open>prod\<close>.
  \<open>isConfigured\<close> is \<^verbatim>\<open>validateEnvironment()\<close> where it returns, and equally
  \<^verbatim>\<open>getEnvironmentConfig().isConfigured\<close> of services/environmentService.ts: all seven
  variables are set. \<open>emailTransporter\<close> and \<open>twilioClient\<close> say that the module created
  the transporter and the client.
\<close>

definition isConfigured :: "environment \<Rightarrow> bool" where
  "isConfigured env =
     (SMTP_HOST env \<and> SMTP_PORT env \<and> SMTP_USER env \<and> SMTP_PASS env \<and>
      TWILIO_ACCOUNT_SID env \<and> TWILIO_AUTH_TOKEN env \<and> TWILIO_PHONE_NUMBER env)"

definition emailTransporter :: "environment \<Rightarrow> bool" where
  "emailTransporter env = (isConfigured env \<and> SMTP_HOST env \<and> SMTP_USER env \<and> SMTP_PASS env)"

definition twilioClient :: "environment \<Rightarrow> bool" where
  "twilioClient env = (isConfigured env \<and> TWILIO_ACCOUNT_SID env \<and> TWILIO_AUTH_TOKEN env)"

definition prod_sendOTPEmail :: "environment \<Rightarrow> bool \<times> string" where
  "prod_sendOTPEmail env =
     (if \<not> emailTransporter env then (False, ''Email service not configured'')
      else if smtp_accepts env then (True, ''OTP sent successfully to your email'')
      else (False, ''Failed to send email. Please try again later.''))"

definition prod_sendOTPSMS :: "environment \<Rightarrow> bool \<times> string" where
  "prod_sendOTPSMS env =
     (if \<not> twilioClient env then (False, ''SMS service not configured'')
      else if twilio_accepts env then (True, ''OTP sent successfully to your phone'')
      else (False, ''Failed to send SMS. Please check your phone number.''))"

definition prod_classify :: "bool \<Rightarrow> bool \<Rightarrow> OTPResult" where
  "prod_classify emailSuccess smsSuccess =
     (if emailSuccess \<and> smsSuccess then
        \<lparr>result_success = True,
         result_message = ''OTP sent successfully to both email and phone'',
         emailSent = True, smsSent = True\<rparr>
      else if emailSuccess \<or> smsSuccess then
        \<lparr>result_success = True,
         result_message = ''OTP sent successfully to your '' @
           (if emailSuccess then ''email'' else ''phone'') @ ''. '' @
           (if \<not> emailSuccess then ''Email delivery failed.'' else ''SMS delivery failed.''),
         emailSent = emailSuccess, smsSent = smsSuccess\<rparr>
      else
        \<lparr>result_success = False,
         result_message = ''Failed to send OTP to both email and phone. Please try again later.'',
         emailSent = False, smsSent = False\<rparr>)"

definition prod_sendOTPToEmailAndPhone :: "environment \<Rightarrow> OTPResult" where
  "prod_sendOTPToEmailAndPhone env =
     prod_classify (fst (prod_sendOTPEmail env)) (fst (prod_sendOTPSMS env))"

section \<open>The database routes (src/unnamed/part_010 over database.ts)\<close>

record prod_state =
  users_table :: "User list"
  otp_sessions :: "OTPSession list"

text \<open>
  \<^verbatim>\<open>otpService.create\<close>: the id is \<^verbatim>\<open>Date.now().toString()\<close> followed by the random
  suffix \<open>rid\<close>. The \<^verbatim>\<open>INSERT\<close> throws when the id is already a primary key of the table or
  the user id is no key of \<^verbatim>\<open>users\<close> (foreign keys are on); \<open>None\<close> is that exception.
  \<^verbatim>\<open>used\<close> and \<^verbatim>\<open>created_at\<close> take their defaults, 0 and \<^verbatim>\<open>CURRENT_TIMESTAMP\<close>.
\<close>

definition insert_session :: "User list \<Rightarrow> OTPSession list \<Rightarrow> OTPSession \<Rightarrow> OTPSession list option" where
  "insert_session us rows r =
     (if sess_id r \<in> set (map sess_id rows) \<or> user_id r \<notin> set (map usr_id us) then None
      else Some (rows @ [r]))"

definition otpService_create ::
  "User list \<Rightarrow> OTPSession list \<Rightarrow> nat \<Rightarrow> string \<Rightarrow> string \<Rightarrow> string \<Rightarrow> string \<Rightarrow> string
     \<Rightarrow> OTPSession list option" where
  "otpService_create us rows now rid uid otp purp exp =
     insert_session us rows
       \<lparr>sess_id = dec now @ rid, user_id = uid, otp_code = otp, purpose = purp,
        expires_at = exp, used = False, created_at = sqlite_datetime now\<rparr>"

text \<open>
  \<^verbatim>\<open>ORDER BY created_at DESC LIMIT 1\<close>: a row with the greatest \<^verbatim>\<open>created_at\<close> (compared
  as text). SQLite leaves the choice among rows with equal \<^verbatim>\<open>created_at\<close> open; here the
  earliest inserted of them is taken.
\<close>

fun latest :: "OTPSession list \<Rightarrow> OTPSession option" where
  "latest [] = None"
| "latest (r # rs) =
     (case latest rs of
        None \<Rightarrow> Some r
      | Some r' \<Rightarrow> if created_at r < created_at r' then Some r' else Some r)"

text \<open>
  \<^verbatim>\<open>otpService.findValidSession\<close>:
  \<^verbatim>\<open>WHERE user_id = ? AND otp_code = ? AND purpose = ? AND used = 0 AND expires_at > datetime('now')\<close>.
  Both sides of the last comparison are text (the stored ISO string is no number, so the
  column's numeric affinity converts neither side), and SQLite compares text byte by
  byte; \<open><\<close> on strings is that order.
\<close>

definition valid_session :: "string \<Rightarrow> string \<Rightarrow> string \<Rightarrow> nat \<Rightarrow> OTPSession \<Rightarrow> bool" where
  "valid_session userId otpCode purp now r =
     (user_id r = userId \<and> otp_code r = otpCode \<and> purpose r = purp \<and> \<not> used r \<and>
      sqlite_datetime now < expires_at r)"

definition findValidSession ::
  "OTPSession list \<Rightarrow> string \<Rightarrow> string \<Rightarrow> string \<Rightarrow> nat \<Rightarrow> OTPSession option" where
  "findValidSession rows userId otpCode purp now =
     latest (filter (valid_session userId otpCode purp now) rows)"

text \<open>
  \<^verbatim>\<open>handleVerifyPasswordForDownload\<close> (RequestStepUp) of the database routes, at the instant
  \<open>now\<close> with the random numbers \<open>rnd\<close> (for the code) and \<open>rid\<close> (for the row id). It
  returns the response, the new state and the messages the providers accepted.
\<close>

definition prod_issue ::
  "environment \<Rightarrow> prod_state \<Rightarrow> User \<Rightarrow> nat \<Rightarrow> nat \<Rightarrow> string \<Rightarrow> response \<times> prod_state \<times> delivery list" where
  "prod_issue env st u now rnd rid =
     (case otpService_create (users_table st) (otp_sessions st) now rid (usr_id u)
             (generateOTP rnd) ''document_download'' (toISOString (now + 5 * 60 * 1000)) of
        None \<Rightarrow> (reply 500 False ''Internal server error'', st, [])
      | Some rows \<Rightarrow>
          if \<not> result_success (prod_sendOTPToEmailAndPhone env)
          then (reply 500 False
                  (if result_message (prod_sendOTPToEmailAndPhone env) \<noteq> []
                   then result_message (prod_sendOTPToEmailAndPhone env)
                   else ''Failed to send OTP. Please try again later.''),
                st\<lparr>otp_sessions := rows\<rparr>,
                deliveries (prod_sendOTPToEmailAndPhone env) (email u) (formattedPhone (phone u))
                  (generateOTP rnd))
          else (reply 200 True (result_message (prod_sendOTPToEmailAndPhone env)),
                st\<lparr>otp_sessions := rows\<rparr>,
                deliveries (prod_sendOTPToEmailAndPhone env) (email u) (formattedPhone (phone u))
                  (generateOTP rnd)))"

definition prod_handleVerifyPasswordForDownload ::
  "environment \<Rightarrow> prod_state \<Rightarrow> string \<Rightarrow> bearer \<Rightarrow> nat \<Rightarrow> nat \<Rightarrow> string
     \<Rightarrow> response \<times> prod_state \<times> delivery list" where
  "prod_handleVerifyPasswordForDownload env st pw auth now rnd rid =
     (if pw = [] then (reply 400 False ''Password is required'', st, [])
      else case auth of
        NoBearer \<Rightarrow> (reply 401 False ''No valid token provided'', st, [])
      | Malformed \<Rightarrow> (reply 401 False ''Invalid token'', st, [])
      | JsonNull \<Rightarrow> (reply 500 False ''Internal server error'', st, [])
      | Claims userId exp \<Rightarrow>
          if exp < now then (reply 401 False ''Token expired'', st, [])
          else case findUserById (users_table st) userId of
            None \<Rightarrow> (reply 404 False ''User not found'', st, [])
          | Some u \<Rightarrow>
              if \<not> bcrypt_compare env pw (password u)
              then (reply 401 False ''Invalid password'', st, [])
              else if \<not> isConfigured env
              then (reply 503 False
                      ''OTP services are not configured. Please contact system administrator.'',
                    st, [])
              else prod_issue env st u now rnd rid)"

text \<open>\<^verbatim>\<open>handleVerifyDownloadOTP\<close> (VerifyStepUp) of the database routes.\<close>

definition prod_handleVerifyDownloadOTP ::
  "prod_state \<Rightarrow> string \<Rightarrow> bearer \<Rightarrow> nat \<Rightarrow> response \<times> prod_state" where
  "prod_handleVerifyDownloadOTP st otp auth now =
     (if otp = [] then (reply 400 False ''OTP is required'', st)
      else case auth of
        NoBearer \<Rightarrow> (reply 401 False ''No valid token provided'', st)
      | Malformed \<Rightarrow> (reply 401 False ''Invalid token'', st)
      | JsonNull \<Rightarrow> (reply 500 False ''Internal server error'', st)
      | Claims userId exp \<Rightarrow>
          if exp < now then (reply 401 False ''Token expired'', st)
          else case findUserById (users_table st) userId of
            None \<Rightarrow> (reply 404 False ''User not found'', st)
          | Some u \<Rightarrow>
              (case findValidSession (otp_sessions st) (usr_id u) otp ''document_download'' now of
                 None \<Rightarrow>
                   (reply 400 False ''Invalid or expired OTP. Please verify your password again.'', st)
               | Some otpSession \<Rightarrow>
                   (reply 200 True ''OTP verified successfully'',
                    st\<lparr>otp_sessions := snd (markAsUsed (otp_sessions st) (sess_id otpSession))\<rparr>)))"

section \<open>The in-memory routes (server/routes/auth.ts and server/routes/documents.ts)\<close>

text \<open>
  A document (\<^verbatim>\<open>Document\<close> in shared/api.ts, without its optional metadata); \<open>doc_id\<close>,
  \<open>doc_name\<close>, \<open>doc_type\<close> and \<open>doc_size\<close> are its \<^verbatim>\<open>id\<close>, \<^verbatim>\<open>name\<close>, \<^verbatim>\<open>type\<close> and \<^verbatim>\<open>size\<close>.
\<close>

record Document =
  doc_id :: string
  doc_name :: string
  doc_type :: string
  semester :: string
  year :: string
  uploadDate :: string
  doc_size :: string
  isSecure :: bool
  userId :: string
  fileUrl :: string

text \<open>The entries of \<^verbatim>\<open>downloadOTPs\<close> (keyed by user id) and of \<^verbatim>\<open>otps\<close> (keyed by document id).\<close>

record otp_entry =
  code :: string
  expiresAt :: nat

record doc_otp_entry = otp_entry +
  contact :: string

record dev_state =
  users :: "User list"
  downloadOTPs :: "string \<Rightarrow> otp_entry option"
  documents :: "Document list"
  otps :: "string \<Rightarrow> doc_otp_entry option"

text \<open>\<^verbatim>\<open>handleVerifyPasswordForDownload\<close> (RequestStepUp) of routes/auth.ts.\<close>

definition dev_issue ::
  "environment \<Rightarrow> dev_state \<Rightarrow> User \<Rightarrow> nat \<Rightarrow> nat \<Rightarrow> response \<times> dev_state \<times> delivery list" where
  "dev_issue env st u now rnd =
     (reply 200 True
        (if result_success (dev_sendOTPToEmailAndPhone env)
         then result_message (dev_sendOTPToEmailAndPhone env)
         else ''Password verified. OTP sent for document download. Check console for development OTP (configure SMTP/Twilio for real sending).''),
      st\<lparr>downloadOTPs := (downloadOTPs st)
            (usr_id u \<mapsto> \<lparr>code = generateOTP rnd, expiresAt = now + 5 * 60 * 1000\<rparr>)\<rparr>,
      deliveries (dev_sendOTPToEmailAndPhone env) (email u) (phone u) (generateOTP rnd))"

definition dev_handleVerifyPasswordForDownload ::
  "environment \<Rightarrow> dev_state \<Rightarrow> string \<Rightarrow> bearer \<Rightarrow> nat \<Rightarrow> nat
     \<Rightarrow> response \<times> dev_state \<times> delivery list" where
  "dev_handleVerifyPasswordForDownload env st pw auth now rnd =
     (if pw = [] then (reply 400 False ''Password is required'', st, [])
      else case auth of
        NoBearer \<Rightarrow> (reply 401 False ''No valid token provided'', st, [])
      | Malformed \<Rightarrow> (reply 401 False ''Invalid token'', st, [])
      | JsonNull \<Rightarrow> (reply 500 False ''Internal server error'', st, [])
      | Claims uid exp \<Rightarrow>
          if exp < now then (reply 401 False ''Token expired'', st, [])
          else case findUserById (users st) uid of
            None \<Rightarrow> (reply 404 False ''User not found'', st, [])
          | Some u \<Rightarrow>
              if \<not> bcrypt_compare env pw (password u)
              then (reply 401 False ''Invalid password'', st, [])
              else dev_issue env st u now rnd)"

text \<open>\<^verbatim>\<open>handleVerifyDownloadOTP\<close> (VerifyStepUp) of routes/auth.ts.\<close>

definition dev_check_otp :: "dev_state \<Rightarrow> User \<Rightarrow> string \<Rightarrow> nat \<Rightarrow> response \<times> dev_state" where
  "dev_check_otp st u otp now =
     (case downloadOTPs st (usr_id u) of
        None \<Rightarrow> (reply 400 False ''No OTP found. Please verify your password first.'', st)
      | Some storedOTP \<Rightarrow>
          if now > expiresAt storedOTP
          then (reply 400 False ''OTP expired. Please verify your password again.'',
                st\<lparr>downloadOTPs := (downloadOTPs st)(usr_id u := None)\<rparr>)
          else if code storedOTP \<noteq> otp then (reply 401 False ''Invalid OTP'', st)
          else (reply 200 True ''OTP verified successfully'',
                st\<lparr>downloadOTPs := (downloadOTPs st)(usr_id u := None)\<rparr>))"

definition dev_handleVerifyDownloadOTP ::
  "dev_state \<Rightarrow> string \<Rightarrow> bearer \<Rightarrow> nat \<Rightarrow> response \<times> dev_state" where
  "dev_handleVerifyDownloadOTP st otp auth now =
     (if otp = [] then (reply 400 False ''OTP is required'', st)
      else case auth of
        NoBearer \<Rightarrow> (reply 401 False ''No valid token provided'', st)
      | Malformed \<Rightarrow> (reply 401 False ''Invalid token'', st)
      | JsonNull \<Rightarrow> (reply 500 False ''Internal server error'', st)
      | Claims uid exp \<Rightarrow>
          if exp < now then (reply 401 False ''Token expired'', st)
          else case findUserById (users st) uid of
            None \<Rightarrow> (reply 404 False ''User not found'', st)
          | Some u \<Rightarrow> dev_check_otp st u otp now)"

text \<open>
  \<^verbatim>\<open>getUserFromToken\<close> of routes/documents.ts, and the handlers' test \<^verbatim>\<open>!userId\<close> on its
  result, which also refuses an empty user id.
\<close>

definition getUserFromToken :: "bearer \<Rightarrow> nat \<Rightarrow> string option" where
  "getUserFromToken auth now =
     (case auth of
        NoBearer \<Rightarrow> None
      | Malformed \<Rightarrow> None
      | JsonNull \<Rightarrow> None
      | Claims uid exp \<Rightarrow> if exp < now then None else Some uid)"

definition authenticated :: "bearer \<Rightarrow> nat \<Rightarrow> string option" where
  "authenticated auth now =
     (case getUserFromToken auth now of
        None \<Rightarrow> None
      | Some uid \<Rightarrow> if uid = [] then None else Some uid)"

text \<open>The bodies \<^verbatim>\<open>SecurityResponse\<close> and \<^verbatim>\<open>DocumentResponse\<close> with their optional fields.\<close>

record SecurityResponse = response +
  downloadUrl :: "string option"
  otpSent :: bool
  urlExpiresAt :: "string option"

definition refuse :: "nat \<Rightarrow> string \<Rightarrow> SecurityResponse" where
  "refuse st msg = \<lparr>status = st, success = False, message = msg, downloadUrl = None,
                    otpSent = False, urlExpiresAt = None\<rparr>"

record DocumentResponse = response +
  document :: "Document option"

definition doc_reply :: "nat \<Rightarrow> bool \<Rightarrow> string \<Rightarrow> Document option \<Rightarrow> DocumentResponse" where
  "doc_reply st ok msg d = \<lparr>status = st, success = ok, message = msg, document = d\<rparr>"

text \<open>\<^verbatim>\<open>Array.prototype.findIndex\<close> (\<open>None\<close> for -1) and \<^verbatim>\<open>splice(i, 1)\<close>.\<close>

fun findIndex :: "('a \<Rightarrow> bool) \<Rightarrow> 'a list \<Rightarrow> nat option" where
  "findIndex P [] = None"
| "findIndex P (x # xs) =
     (if P x then Some 0 else (case findIndex P xs of None \<Rightarrow> None | Some i \<Rightarrow> Some (Suc i)))"

definition splice1 :: "nat \<Rightarrow> 'a list \<Rightarrow> 'a list" where
  "splice1 i xs = take i xs @ drop (Suc i) xs"

text \<open>\<^verbatim>\<open>handleDeleteDocument\<close> of routes/documents.ts.\<close>

definition handleDeleteDocument ::
  "dev_state \<Rightarrow> bearer \<Rightarrow> string \<Rightarrow> nat \<Rightarrow> DocumentResponse \<times> dev_state" where
  "handleDeleteDocument st auth ident now =
     (case authenticated auth now of
        None \<Rightarrow> (doc_reply 401 False ''Authentication required'' None, st)
      | Some uid \<Rightarrow>
          (case findIndex (\<lambda>d. doc_id d = ident \<and> userId d = uid) (documents st) of
             None \<Rightarrow> (doc_reply 404 False ''Document not found'' None, st)
           | Some documentIndex \<Rightarrow>
               (doc_reply 200 True ''Document deleted successfully''
                  (Some (documents st ! documentIndex)),
                st\<lparr>documents := splice1 documentIndex (documents st),
                   otps := (otps st)(ident := None)\<rparr>)))"

text \<open>\<^verbatim>\<open>handleSendOTP\<close> of routes/documents.ts.\<close>

definition handleSendOTP ::
  "environment \<Rightarrow> dev_state \<Rightarrow> bearer \<Rightarrow> string \<Rightarrow> nat \<Rightarrow> nat
     \<Rightarrow> SecurityResponse \<times> dev_state \<times> delivery list" where
  "handleSendOTP env st auth documentId now rnd =
     (case authenticated auth now of
        None \<Rightarrow> (refuse 401 ''Authentication required'', st, [])
      | Some uid \<Rightarrow>
          if documentId = [] then (refuse 400 ''Document ID is required'', st, [])
          else case find (\<lambda>d. doc_id d = documentId \<and> userId d = uid) (documents st) of
            None \<Rightarrow> (refuse 404 ''Document not found'', st, [])
          | Some d \<Rightarrow>
              if \<not> isSecure d
              then (refuse 400 ''This document does not require OTP verification'', st, [])
              else case findUserById (users st) uid of
                None \<Rightarrow> (refuse 404 ''User not found'', st, [])
              | Some u \<Rightarrow>
                  (\<lparr>status = 200, success = True,
                    message =
                      (if result_success (dev_sendOTPToEmailAndPhone env)
                       then result_message (dev_sendOTPToEmailAndPhone env) @ '' for document access.''
                       else ''OTP generated for document access. Check console for development OTP (configure SMTP/Twilio for real sending).''),
                    downloadUrl = None, otpSent = True, urlExpiresAt = None\<rparr>,
                   st\<lparr>otps := (otps st)
                        (documentId \<mapsto> \<lparr>code = generateOTP rnd, expiresAt = now + 5 * 60 * 1000,
                                        contact = email u\<rparr>)\<rparr>,
                   deliveries (dev_sendOTPToEmailAndPhone env) (email u) (phone u) (generateOTP rnd)))"

text \<open>
  The download token minted by \<^verbatim>\<open>handleVerifyOTP\<close>:
  \<^verbatim>\<open>Buffer.from(`${documentId}:${Date.now()}`).toString('base64')\<close>.
\<close>

definition mintToken :: "string \<Rightarrow> nat \<Rightarrow> string" where
  "mintToken documentId now = base64_encode (documentId @ '':'' @ dec now)"

text \<open>\<^verbatim>\<open>handleVerifyOTP\<close> of routes/documents.ts.\<close>

definition check_doc_otp ::
  "dev_state \<Rightarrow> Document \<Rightarrow> string \<Rightarrow> string \<Rightarrow> nat \<Rightarrow> SecurityResponse \<times> dev_state" where
  "check_doc_otp st d documentId otp now =
     (case otps st documentId of
        None \<Rightarrow> (refuse 400 ''No OTP found. Please request a new one.'', st)
      | Some storedOtp \<Rightarrow>
          if now > expiresAt storedOtp
          then (refuse 400 ''OTP expired. Please request a new one.'',
                st\<lparr>otps := (otps st)(documentId := None)\<rparr>)
          else if code storedOtp \<noteq> otp then (refuse 401 ''Invalid OTP'', st)
          else (\<lparr>status = 200, success = True, message = ''OTP verified successfully'',
                 downloadUrl = Some (fileUrl d @ ''?token='' @ mintToken documentId now),
                 otpSent = False,
                 urlExpiresAt = Some (toISOString (now + 10 * 60 * 1000))\<rparr>,
                st\<lparr>otps := (otps st)(documentId := None)\<rparr>))"

definition handleVerifyOTP ::
  "dev_state \<Rightarrow> bearer \<Rightarrow> string \<Rightarrow> string \<Rightarrow> nat \<Rightarrow> SecurityResponse \<times> dev_state" where
  "handleVerifyOTP st auth documentId otp now =
     (case authenticated auth now of
        None \<Rightarrow> (refuse 401 ''Authentication required'', st)
      | Some uid \<Rightarrow>
          (case find (\<lambda>d. doc_id d = documentId \<and> userId d = uid) (documents st) of
             None \<Rightarrow> (refuse 404 ''Document not found'', st)
           | Some d \<Rightarrow> check_doc_otp st d documentId otp now))"

text \<open>
  \<^verbatim>\<open>handleGetFile\<close>, the same in both sets of routes, up to the decision to serve the file.
  \<open>token_accepted\<close> is the check its secure branch makes on the \<^verbatim>\<open>token\<close> query parameter
  (Verify in the specification); \<^verbatim>\<open>Buffer.from\<close> does not throw, so the \<^verbatim>\<open>catch\<close> is dead.
\<close>

definition token_accepted :: "string \<Rightarrow> string \<Rightarrow> bool" where
  "token_accepted token ident =
     (token \<noteq> [] \<and> split_colon_first (base64_decode token) = ident)"

datatype file_response = Refused nat string | Streamed Document

definition handleGetFile :: "Document list \<Rightarrow> string \<Rightarrow> string \<Rightarrow> file_response" where
  "handleGetFile docs ident token =
     (case find (\<lambda>d. doc_id d = ident) docs of
        None \<Rightarrow> Refused 404 ''Document not found''
      | Some d \<Rightarrow>
          if isSecure d then
            (if token = [] then Refused 403 ''Access token required for secure downloads''
             else if split_colon_first (base64_decode token) \<noteq> ident
             then Refused 403 ''Invalid access token''
             else Streamed d)
          else Streamed d)"

text \<open>
  A sequence of VerifyStepUp requests (code, bearer, instant) to routes/auth.ts, each one
  served in the state its predecessor left; the responses in order.
\<close>

fun dev_verify_calls :: "dev_state \<Rightarrow> (string \<times> bearer \<times> nat) list \<Rightarrow> response list" where
  "dev_verify_calls st [] = []"
| "dev_verify_calls st ((otp, auth, now) # calls) =
     fst (dev_handleVerifyDownloadOTP st otp auth now) #
     dev_verify_calls (snd (dev_handleVerifyDownloadOTP st otp auth now)) calls"

text \<open>
  A sequence of code submissions (bearer, code, instant) for one document to
  \<^verbatim>\<open>handleVerifyOTP\<close> of routes/documents.ts, each one served in the state its predecessor
  left; the responses in order.
\<close>

fun doc_verify_calls ::
  "dev_state \<Rightarrow> string \<Rightarrow> (bearer \<times> string \<times> nat) list \<Rightarrow> SecurityResponse list" where
  "doc_verify_calls st documentId [] = []"
| "doc_verify_calls st documentId ((auth, otp, now) # calls) =
     fst (handleVerifyOTP st auth documentId otp now) #
     doc_verify_calls (snd (handleVerifyOTP st auth documentId otp now)) documentId calls"

text \<open>
  Requests to the code-related handlers of routes/documents.ts, and a run of them: each
  request is served in the state its predecessor left, and the run records for each
  request whether its response had \<^verbatim>\<open>success: true\<close>.
\<close>

datatype doc_call =
    SendOTP environment bearer string nat nat
  | VerifyOTP bearer string string nat
  | DeleteDocument bearer string nat

fun doc_step :: "dev_state \<Rightarrow> doc_call \<Rightarrow> bool \<times> dev_state" where
  "doc_step st (SendOTP env auth documentId now rnd) =
     (success (fst (handleSendOTP env st auth documentId now rnd)),
      fst (snd (handleSendOTP env st auth documentId now rnd)))"
| "doc_step st (VerifyOTP auth documentId otp now) =
     (success (fst (handleVerifyOTP st auth documentId otp now)),
      snd (handleVerifyOTP st auth documentId otp now))"
| "doc_step st (DeleteDocument auth ident now) =
     (success (fst (handleDeleteDocument st auth ident now)),
      snd (handleDeleteDocument st auth ident now))"

fun doc_run :: "dev_state \<Rightarrow> doc_call list \<Rightarrow> (doc_call \<times> bool) list" where
  "doc_run st [] = []"
| "doc_run st (c # cs) = (c, fst (doc_step st c)) # doc_run (snd (doc_step st c)) cs"

text \<open>
  The state has no document with the id \<open>ident\<close> and no pending code stored for it.
\<close>

definition gone :: "string \<Rightarrow> dev_state \<Rightarrow> bool" where
  "gone ident st \<longleftrightarrow> (\<forall>d \<in> set (documents st). doc_id d \<noteq> ident) \<and> otps st ident = None"

section \<open>Example values\<close>

definition row1 :: OTPSession where
  "row1 = \<lparr>sess_id = ''1735732800000k3j9x2m1a'', user_id = ''u1'', otp_code = ''123456'',
           purpose = ''document_download'', expires_at = ''2025-01-01T12:05:00.000Z'',
           used = False, created_at = ''2025-01-01 12:00:00''\<rparr>"


definition doc1 :: Document where
  "doc1 = \<lparr>doc_id = ''1735732800000k3j9x2m1a'', doc_name = ''Transcript'', doc_type = ''transcript'',
           semester = ''5'', year = ''2025'', uploadDate = ''2025-01-01'', doc_size = ''1.2 MB'',
           isSecure = True, userId = ''u1'', fileUrl = ''/api/files/1735732800000k3j9x2m1a''\<rparr>"

definition user1 :: User where
  "user1 = \<lparr>usr_id = ''u1'', name = ''Asha Rao'', email = ''a@x.com'', phone = ''+15551230000'',
            password = ''$2b$12$storedhash''\<rparr>"

definition row2 :: OTPSession where
  "row2 = \<lparr>sess_id = ''1735732860000p0q9r8s7t'', user_id = ''u1'', otp_code = ''123456'',
           purpose = ''document_download'', expires_at = ''2025-01-01T12:06:00.000Z'',
           used = False, created_at = ''2025-01-01 12:01:00''\<rparr>"

definition prod_st1 :: prod_state where
  "prod_st1 = \<lparr>users_table = [user1], otp_sessions = [row1]\<rparr>"

definition prod_st2 :: prod_state where
  "prod_st2 = \<lparr>users_table = [user1], otp_sessions = [row1, row2]\<rparr>"

definition env_ok :: environment where
  "env_ok = \<lparr>SMTP_HOST = True, SMTP_PORT = True, SMTP_USER = True, SMTP_PASS = True,
             TWILIO_ACCOUNT_SID = True, TWILIO_AUTH_TOKEN = True, TWILIO_PHONE_NUMBER = True,
             bcrypt_compare = (\<lambda>pw h. pw = ''SecurePass2024!'' \<and> h = ''$2b$12$storedhash''),
             smtp_accepts = True, twilio_accepts = True\<rparr>"

definition prod_st0 :: prod_state where
  "prod_st0 = \<lparr>users_table = [user1], otp_sessions = []\<rparr>"

definition dev_st1 :: dev_state where
  "dev_st1 = \<lparr>users = [user1],
              downloadOTPs = [''u1'' \<mapsto> \<lparr>code = ''123456'', expiresAt = 1735733100000\<rparr>],
              documents = [doc1], otps = Map.empty\<rparr>"




definition doc2 :: Document where
  "doc2 = \<lparr>doc_id = ''1735732805000z8y7x6w5v'', doc_name = ''Fee receipt'', doc_type = ''fee-receipt'',
           semester = ''5'', year = ''2025'', uploadDate = ''2025-01-01'', doc_size = ''310 KB'',
           isSecure = True, userId = ''u1'', fileUrl = ''/api/files/1735732805000z8y7x6w5v''\<rparr>"

definition dev_st2 :: dev_state where
  "dev_st2 = \<lparr>users = [user1], downloadOTPs = Map.empty, documents = [doc1, doc2],
              otps = [''1735732800000k3j9x2m1a'' \<mapsto>
                        \<lparr>code = ''123456'', expiresAt = 1735733100000, contact = ''a@x.com''\<rparr>,
                      ''1735732805000z8y7x6w5v'' \<mapsto>
                        \<lparr>code = ''654321'', expiresAt = 1735733100000, contact = ''a@x.com''\<rparr>]\<rparr>"

section \<open>Consuming a ledger row\<close>

lemma markAsUsed_rows:
  "snd (markAsUsed rows i) = map (\<lambda>r. if sess_id r = i then r\<lparr>used := True\<rparr> else r) rows"
  by (simp add: markAsUsed_def Let_def)

lemma markAsUsed_rows_idem:
  "snd (markAsUsed (snd (markAsUsed rows i)) i) = snd (markAsUsed rows i)"
  by (simp add: markAsUsed_rows)

lemma markAsUsed_marks:
  "r \<in> set (snd (markAsUsed rows i)) \<Longrightarrow> sess_id r = i \<Longrightarrow> used r"
  unfolding markAsUsed_rows set_map by (elim imageE) (simp split: if_splits)

lemma markAsUsed_flag:
  "fst (markAsUsed rows i) \<longleftrightarrow> i \<in> sess_id ` set rows"
  by (induction rows) (auto simp: markAsUsed_def Let_def)

lemma markAsUsed_keeps_ids:
  "sess_id ` set (snd (markAsUsed rows i)) = sess_id ` set rows"
  by (induction rows) (auto simp: markAsUsed_def Let_def)

text \<open>
  Claim C4, as the code has it. For the id of an existing row both of two successive calls
  of \<open>markAsUsed\<close> return true (the second call selects the same row again), the row is
  consumed after the first call and the second call leaves the table as the first left it;
  for an id that no row has, the call returns false and changes nothing. The function is
  total: no branch of it raises.
\<close>

theorem markAsUsed_twice:
  "(i \<in> sess_id ` set rows \<longrightarrow>
      fst (markAsUsed rows i) \<and>
      fst (markAsUsed (snd (markAsUsed rows i)) i) \<and>
      (\<forall>r \<in> set (snd (markAsUsed rows i)). sess_id r = i \<longrightarrow> used r) \<and>
      snd (markAsUsed (snd (markAsUsed rows i)) i) = snd (markAsUsed rows i)) \<and>
   (i \<notin> sess_id ` set rows \<longrightarrow>
      \<not> fst (markAsUsed rows i) \<and> snd (markAsUsed rows i) = rows)"
proof (intro conjI impI)
  assume ex: "i \<in> sess_id ` set rows"
  show "fst (markAsUsed rows i)"
    using ex by (simp add: markAsUsed_flag)
  show "fst (markAsUsed (snd (markAsUsed rows i)) i)"
    using ex by (simp add: markAsUsed_flag markAsUsed_keeps_ids)
  show "\<forall>r \<in> set (snd (markAsUsed rows i)). sess_id r = i \<longrightarrow> used r"
    using markAsUsed_marks by blast
  show "snd (markAsUsed (snd (markAsUsed rows i)) i) = snd (markAsUsed rows i)"
    by (rule markAsUsed_rows_idem)
next
  assume nex: "i \<notin> sess_id ` set rows"
  show "\<not> fst (markAsUsed rows i)"
    using nex by (simp add: markAsUsed_flag)
  have "map (\<lambda>r. if sess_id r = i then r\<lparr>used := True\<rparr> else r) rows = rows"
    using nex by (induction rows) auto
  then show "snd (markAsUsed rows i) = rows"
    by (simp add: markAsUsed_rows)
qed

theorem markAsUsed_twice_witness:
  "fst (markAsUsed [row1] (sess_id row1)) \<and>
   fst (markAsUsed (snd (markAsUsed [row1] (sess_id row1))) (sess_id row1)) \<and>
   \<not> fst (markAsUsed [row1] ''missing'') \<and> snd (markAsUsed [row1] ''missing'') = [row1]"
  using markAsUsed_twice [of "sess_id row1" "[row1]"] markAsUsed_twice [of "''missing''" "[row1]"]
  by (simp add: row1_def)

text \<open>
  The claim as the specification words it (true on the first call, false on the second)
  fails on the one-row table \<open>[row1]\<close>: the second call returns true.
\<close>

theorem markAsUsed_second_call_counterexample:
  "\<not> (fst (markAsUsed [row1] (sess_id row1)) \<and>
      \<not> fst (markAsUsed (snd (markAsUsed [row1] (sess_id row1))) (sess_id row1)))"
  by (simp add: markAsUsed_def row1_def)


section \<open>The download token\<close>

subsection \<open>Decoding undoes encoding\<close>


lemma unbase64_b64char: "n < 64 \<Longrightarrow> unbase64 (b64char n) = Some n"
  by (auto simp add: unbase64_def b64char_def b64code_def unbase64_code_def)

lemma div16_div16: "y < 256 \<Longrightarrow> (y::nat) div 16 div 16 = 0"
  by simp
lemma div64_div4: "z < 256 \<Longrightarrow> (z::nat) div 64 div 4 = 0"
  by simp

lemma byte1_rejoin: "y < 256 \<Longrightarrow> x div 4 * 4 + ((x mod 4) * 16 + y div 16) div 16 = (x::nat)"
  by (simp add: div16_div16)

lemma split_at_16: "(y::nat) div 16 mod 16 * 16 + y mod 16 = y" if "y < 256"
proof -
  have "y div 16 < 16" using that by simp
  then have "y div 16 mod 16 = y div 16" by simp
  then show ?thesis by simp
qed

lemma split_at_64: "(z::nat) div 64 mod 4 * 64 + z mod 64 = z" if "z < 256"
proof -
  have "z div 64 < 4" using that by simp
  then have "z div 64 mod 4 = z div 64" by simp
  then show ?thesis by simp
qed

lemma byte2_rejoin: "y < 256 \<Longrightarrow> z < 256 \<Longrightarrow> ((x mod 4) * 16 + y div 16) mod 16 * 16 + ((y mod 16) * 4 + z div 64) div 4 = (y::nat)"
  using split_at_16 [of y] by (simp add: div64_div4)

lemma byte3_rejoin: "z < 256 \<Longrightarrow> ((y mod 16) * 4 + z div 64) mod 4 * 64 + z mod 64 = (z::nat)"
  using split_at_64 [of z] by simp

lemma byte2_rejoin_pad: "y < 256 \<Longrightarrow> ((x mod 4) * 16 + y div 16) mod 16 * 16 + ((y mod 16) * 4) div 4 = (y::nat)"
  using split_at_16 [of y] by simp

lemma byte1_rejoin_pad: "x div 4 * 4 + ((x mod 4) * 16) div 16 = (x::nat)"
  by simp

lemma unsextets3:
  assumes "x < 256" "y < 256" "z < 256"
  shows "unsextets (x div 4 # ((x mod 4) * 16 + y div 16) # ((y mod 16) * 4 + z div 64) # z mod 64 # r)
         = x # y # z # unsextets r"
  using byte1_rejoin [OF assms(2), of x] byte2_rejoin [OF assms(2,3), of x] byte3_rejoin [OF assms(3), of y]
  by (simp only: unsextets.simps)

lemma unsextets2:
  assumes "x < 256" "y < 256"
  shows "unsextets [x div 4, (x mod 4) * 16 + y div 16, (y mod 16) * 4] = [x, y]"
  using byte1_rejoin [OF assms(2), of x] byte2_rejoin_pad [OF assms(2), of x]
  by (simp only: unsextets.simps)

lemma unsextets1: "unsextets [x div 4, (x mod 4) * 16] = [x]"
  using byte1_rejoin_pad [of x] by (simp only: unsextets.simps)


lemma unbase64_pad: "unbase64 (CHR ''='') = None"
  by (simp add: unbase64_def unbase64_code_def)

lemma sextets_b64char: "n < 64 \<Longrightarrow> sextets (b64char n # cs) = n # sextets cs"
  by (simp add: unbase64_b64char)

lemma sextets_pad: "sextets (CHR ''='' # cs) = []"
  by (simp add: unbase64_pad)

lemma sextets_enc3:
  assumes "x < 256" "y < 256" "z < 256"
  shows "sextets (enc3 x y z @ cs) =
         x div 4 # ((x mod 4) * 16 + y div 16) # ((y mod 16) * 4 + z div 64) # z mod 64 # sextets cs"
proof -
  have "x div 4 < 64" "(x mod 4) * 16 + y div 16 < 64" "(y mod 16) * 4 + z div 64 < 64" "z mod 64 < 64"
    using assms by auto
  then show ?thesis by (simp add: enc3_def sextets_b64char del: sextets.simps)
qed

lemma sextets_enc2:
  assumes "x < 256" "y < 256"
  shows "sextets (enc2 x y) = [x div 4, (x mod 4) * 16 + y div 16, (y mod 16) * 4]"
proof -
  have "x div 4 < 64" "(x mod 4) * 16 + y div 16 < 64" "(y mod 16) * 4 < 64"
    using assms by auto
  then show ?thesis by (simp add: enc2_def sextets_b64char sextets_pad del: sextets.simps)
qed

lemma sextets_enc1:
  assumes "x < 256"
  shows "sextets (enc1 x) = [x div 4, (x mod 4) * 16]"
proof -
  have "x div 4 < 64" "(x mod 4) * 16 < 64"
    using assms by auto
  then show ?thesis by (simp add: enc1_def sextets_b64char sextets_pad del: sextets.simps)
qed

lemma of_char_lt: "of_char c < (256::nat)"
  by simp

lemma base64_sextets: "unsextets (sextets (base64_encode bs)) = map of_char bs"
proof (induction bs rule: base64_encode.induct)
  case (1 a b c rest)
  have "unsextets (sextets (base64_encode (a # b # c # rest))) =
        of_char a # of_char b # of_char c # unsextets (sextets (base64_encode rest))"
    by (simp only: base64_encode.simps sextets_enc3 [OF of_char_lt of_char_lt of_char_lt]
          unsextets3 [OF of_char_lt of_char_lt of_char_lt])
  then show ?case using 1 by simp
next
  case (2 a b)
  show ?case
    by (simp only: base64_encode.simps sextets_enc2 [OF of_char_lt of_char_lt]
          unsextets2 [OF of_char_lt of_char_lt] list.map)
next
  case (3 a)
  show ?case
    by (simp only: base64_encode.simps sextets_enc1 [OF of_char_lt] unsextets1 list.map)
next
  case 4
  show ?case by simp
qed

lemma base64_roundtrip: "base64_decode (base64_encode bs) = bs"
  by (simp add: base64_decode_def base64_sextets comp_def)


subsection \<open>What the file route accepts\<close>

lemma base64_encode_nonempty: "bs \<noteq> [] \<Longrightarrow> base64_encode bs \<noteq> []"
  by (cases bs rule: base64_encode.cases) (simp_all add: enc3_def enc2_def enc1_def)

lemma takeWhile_until: "c \<notin> set d \<Longrightarrow> takeWhile (\<lambda>x. x \<noteq> c) (d @ c # r) = d"
  by (induction d) auto

lemma split_colon_first_mint:
  "CHR '':'' \<notin> set d \<Longrightarrow> split_colon_first (base64_decode (mintToken d now)) = d"
  by (simp add: mintToken_def base64_roundtrip split_colon_first_def takeWhile_until)

lemma sextets_empty_rejected:
  "sextets s = [] \<Longrightarrow> split_colon_first (base64_decode s) = []"
  by (simp add: base64_decode_def split_colon_first_def)

lemma digit_no_colon: "digit d \<noteq> CHR '':''"
proof -
  have "digit d \<in> set ''0123456789''" unfolding digit_def by (rule nth_mem) simp
  moreover have "CHR '':'' \<notin> set ''0123456789''" by simp
  ultimately show ?thesis by metis
qed

lemma dec_no_colon: "CHR '':'' \<notin> set (dec n)"
proof (induction n rule: dec.induct)
  case (1 n)
  show ?case
  proof (cases "n < 10")
    case True
    then show ?thesis using digit_no_colon [of n] by (subst dec.simps) simp
  next
    case False
    then show ?thesis using 1 digit_no_colon [of n] by (subst dec.simps) simp
  qed
qed

lemma generated_id_no_colon:
  "CHR '':'' \<notin> set rid \<Longrightarrow> CHR '':'' \<notin> set (dec now @ rid)"
  by (simp add: dec_no_colon)

text \<open>
  Claim C5, as the code has it. \<open>mintToken d now\<close> is Mint and the token check of
  \<open>handleGetFile\<close> on a secure document is Verify. For a document id \<open>d\<close> without a colon
  (every generated id is digits and lower-case letters, see \<open>generated_id_no_colon\<close>) the
  token minted for \<open>d\<close> opens the secure document \<open>d'\<close> exactly when \<open>d' = d\<close>. The check is
  total (nothing in it throws); it refuses the empty string; any other string \<open>s\<close> is
  accepted exactly when its decoding up to the first colon is the requested id, so a string
  with no base64 character is refused for every non-empty id.
\<close>

theorem download_token_scope:
  assumes "CHR '':'' \<notin> set d"
    and "find (\<lambda>x. doc_id x = d') docs = Some doc" and "isSecure doc"
  shows "handleGetFile docs d' (mintToken d now) =
           (if d' = d then Streamed doc else Refused 403 ''Invalid access token'') \<and>
         handleGetFile docs d' [] = Refused 403 ''Access token required for secure downloads'' \<and>
         (\<forall>s. handleGetFile docs d' s = Streamed doc \<longleftrightarrow>
                s \<noteq> [] \<and> split_colon_first (base64_decode s) = d') \<and>
         (\<forall>s. sextets s = [] \<and> d' \<noteq> [] \<longrightarrow> handleGetFile docs d' s \<noteq> Streamed doc)"
proof -
  have ne: "mintToken d now \<noteq> []"
    by (simp add: mintToken_def base64_encode_nonempty)
  have 1: "handleGetFile docs d' (mintToken d now) =
           (if d' = d then Streamed doc else Refused 403 ''Invalid access token'')"
    using assms ne by (auto simp add: handleGetFile_def split_colon_first_mint)
  have 2: "handleGetFile docs d' [] = Refused 403 ''Access token required for secure downloads''"
    using assms by (simp add: handleGetFile_def)
  have 3: "handleGetFile docs d' s = Streamed doc \<longleftrightarrow>
             s \<noteq> [] \<and> split_colon_first (base64_decode s) = d'" for s
    using assms by (simp add: handleGetFile_def)
  have 4: "sextets s = [] \<and> d' \<noteq> [] \<longrightarrow> handleGetFile docs d' s \<noteq> Streamed doc" for s
    using 3 [of s] sextets_empty_rejected [of s] by auto
  show ?thesis using 1 2 3 4 by blast
qed

text \<open>The theorem at the secure document \<open>doc1\<close>, a token minted for it, and the string \<^verbatim>\<open>%%%\<close>.\<close>

theorem download_token_scope_witness:
  "handleGetFile [doc1] (doc_id doc1) (mintToken (doc_id doc1) 1735733000000) = Streamed doc1 \<and>
   handleGetFile [doc1] (doc_id doc1) [] = Refused 403 ''Access token required for secure downloads'' \<and>
   handleGetFile [doc1] (doc_id doc1) ''%%%'' \<noteq> Streamed doc1"
proof -
  have a: "CHR '':'' \<notin> set (doc_id doc1)" by (simp add: doc1_def)
  have b: "find (\<lambda>x. doc_id x = doc_id doc1) [doc1] = Some doc1" by simp
  have c: "isSecure doc1" by (simp add: doc1_def)
  have d: "sextets ''%%%'' = [] \<and> doc_id doc1 \<noteq> []"
    by (simp add: doc1_def unbase64_def unbase64_code_def)
  note th = download_token_scope [OF a b c, of 1735733000000]
  from th have 1: "handleGetFile [doc1] (doc_id doc1) (mintToken (doc_id doc1) 1735733000000) =
      (if doc_id doc1 = doc_id doc1 then Streamed doc1 else Refused 403 ''Invalid access token'')"
    by blast
  from th have 2: "handleGetFile [doc1] (doc_id doc1) [] =
      Refused 403 ''Access token required for secure downloads''"
    by blast
  from th d have 3: "handleGetFile [doc1] (doc_id doc1) ''%%%'' \<noteq> Streamed doc1"
    by blast
  from 1 2 3 show ?thesis by simp
qed

text \<open>
  The claim as the specification words it (every arbitrary string is refused) fails: the
  base64 text of the bare document id, which Mint never produces, opens the document.
\<close>

theorem forged_token_counterexample:
  "handleGetFile [doc1] ''1735732800000k3j9x2m1a'' ''MTczNTczMjgwMDAwMGszajl4Mm0xYQ=='' = Streamed doc1"
  by (simp add: handleGetFile_def doc1_def split_colon_first_def base64_decode_def unbase64_def
        unbase64_code_def char_of_eq_iff)



section \<open>VerifyStepUp on the ledger\<close>

lemma latest_None: "latest xs = None \<longleftrightarrow> xs = []"
  by (induction xs) (auto split: option.splits)

lemma latest_in: "latest xs = Some r \<Longrightarrow> r \<in> set xs"
  by (induction xs arbitrary: r) (auto split: option.splits if_splits)

lemma latest_max: "latest xs = Some r \<Longrightarrow> x \<in> set xs \<Longrightarrow> created_at x \<le> created_at r"
  by (induction xs arbitrary: r) (auto split: option.splits if_splits simp: latest_None)

lemma findValidSession_None:
  "findValidSession rows u c p now = None \<longleftrightarrow> (\<forall>r \<in> set rows. \<not> valid_session u c p now r)"
  by (simp add: findValidSession_def latest_None filter_empty_conv)

lemma findValidSession_Some:
  assumes "findValidSession rows u c p now = Some r"
  shows "r \<in> set rows" and "valid_session u c p now r"
    and "\<And>x. x \<in> set rows \<Longrightarrow> valid_session u c p now x \<Longrightarrow> created_at x \<le> created_at r"
proof -
  have in_f: "r \<in> set (filter (valid_session u c p now) rows)"
    using assms latest_in unfolding findValidSession_def by blast
  then show "r \<in> set rows" and "valid_session u c p now r" by simp_all
  fix x assume "x \<in> set rows" "valid_session u c p now x"
  then have "x \<in> set (filter (valid_session u c p now) rows)" by simp
  then show "created_at x \<le> created_at r"
    using assms latest_max unfolding findValidSession_def by blast
qed

lemma prod_verify_unfold:
  assumes "otp \<noteq> []" "\<not> exp < now" "findUserById (users_table st) uid = Some u"
  shows "prod_handleVerifyDownloadOTP st otp (Claims uid exp) now =
     (case findValidSession (otp_sessions st) (usr_id u) otp ''document_download'' now of
        None \<Rightarrow> (reply 400 False ''Invalid or expired OTP. Please verify your password again.'', st)
      | Some otpSession \<Rightarrow>
          (reply 200 True ''OTP verified successfully'',
           st\<lparr>otp_sessions := snd (markAsUsed (otp_sessions st) (sess_id otpSession))\<rparr>))"
  using assms by (simp add: prod_handleVerifyDownloadOTP_def)

lemma findUserById_id: "findUserById us i = Some u \<Longrightarrow> usr_id u = i"
  by (auto simp: findUserById_def dest: find_Some_iff[THEN iffD1])

lemma valid_after_mark:
  "valid_session u c p now (if sess_id x = i then x\<lparr>used := True\<rparr> else x) \<longleftrightarrow>
   valid_session u c p now x \<and> sess_id x \<noteq> i"
  by (simp add: valid_session_def)

lemma filter_valid_marked:
  "filter (valid_session u c p now) (snd (markAsUsed rows i)) =
   filter (\<lambda>x. sess_id x \<noteq> i) (filter (valid_session u c p now) rows)"
proof (induction rows)
  case Nil
  show ?case by (simp add: markAsUsed_rows)
next
  case (Cons x rows)
  then show ?case
    using valid_after_mark [of u c p now x i]
    by (simp add: markAsUsed_rows)
qed


lemma reply_success [simp]: "success (reply st ok msg) = ok"
  by (simp add: reply_def)

lemma assemble_fail: "\<not> S \<Longrightarrow> \<not> E \<Longrightarrow> F \<Longrightarrow> (S \<longleftrightarrow> E) \<and> (S \<longrightarrow> M) \<and> (U \<longrightarrow> F)"
  by blast

lemma assemble_ok: "S \<Longrightarrow> E \<Longrightarrow> M \<Longrightarrow> (U \<Longrightarrow> F) \<Longrightarrow> (S \<longleftrightarrow> E) \<and> (S \<longrightarrow> M) \<and> (U \<longrightarrow> F)"
  by blast

text \<open>
  Claim C1, as the code has it, for the database routes. For a non-empty submitted code
  and a valid session of an existing account, VerifyStepUp succeeds exactly when the
  table has an unused row of that account with the purpose \<^verbatim>\<open>document_download\<close> and the
  submitted code that passes the expiry filter of the query; on success a most recently
  created such row is marked used and nothing else changes; and when all such rows are
  one row (share one id), the immediately repeated call is answered with the
  invalid-or-expired response.
\<close>

theorem verify_step_up:
  assumes "otp \<noteq> []" and "\<not> exp < now" and "findUserById (users_table st) uid = Some u"
  shows
   "(success (fst (prod_handleVerifyDownloadOTP st otp (Claims uid exp) now)) \<longleftrightarrow>
       (\<exists>r \<in> set (otp_sessions st).
           user_id r = uid \<and> purpose r = ''document_download'' \<and> otp_code r = otp \<and>
           \<not> used r \<and> sqlite_datetime now < expires_at r)) \<and>
    (success (fst (prod_handleVerifyDownloadOTP st otp (Claims uid exp) now)) \<longrightarrow>
       (\<exists>r \<in> set (otp_sessions st).
           valid_session uid otp ''document_download'' now r \<and>
           (\<forall>x \<in> set (otp_sessions st).
               valid_session uid otp ''document_download'' now x \<longrightarrow> created_at x \<le> created_at r) \<and>
           snd (prod_handleVerifyDownloadOTP st otp (Claims uid exp) now) =
             st\<lparr>otp_sessions :=
                  map (\<lambda>x. if sess_id x = sess_id r then x\<lparr>used := True\<rparr> else x) (otp_sessions st)\<rparr>)) \<and>
    ((\<forall>r \<in> set (otp_sessions st). \<forall>r' \<in> set (otp_sessions st).
         valid_session uid otp ''document_download'' now r \<and>
         valid_session uid otp ''document_download'' now r' \<longrightarrow> sess_id r = sess_id r') \<longrightarrow>
       fst (prod_handleVerifyDownloadOTP
              (snd (prod_handleVerifyDownloadOTP st otp (Claims uid exp) now)) otp (Claims uid exp) now) =
         reply 400 False ''Invalid or expired OTP. Please verify your password again.'')"
  (is "(?S \<longleftrightarrow> ?E) \<and> (?S \<longrightarrow> ?M) \<and> (?U \<longrightarrow> ?F)")
proof -
  let ?P = "valid_session uid otp ''document_download'' now"
  let ?res = "prod_handleVerifyDownloadOTP st otp (Claims uid exp) now"
  let ?bad = "reply 400 False ''Invalid or expired OTP. Please verify your password again.''"
  have uid: "usr_id u = uid" using assms(3) by (rule findUserById_id)
  note unf = prod_verify_unfold [OF assms, unfolded uid]
  have E_iff: "?E \<longleftrightarrow> (\<exists>r \<in> set (otp_sessions st). ?P r)"
    unfolding valid_session_def by blast
  show ?thesis
  proof (cases "findValidSession (otp_sessions st) uid otp ''document_download'' now")
    case None
    have res: "?res = (?bad, st)"
      unfolding unf None by simp
    have none: "\<forall>r \<in> set (otp_sessions st). \<not> ?P r"
      using None by (simp only: findValidSession_None)
    have nS: "\<not> ?S" unfolding res by simp
    have nE: "\<not> ?E" unfolding E_iff using none by blast
    have F: "?F" unfolding res snd_conv fst_conv by (rule refl)
    show ?thesis by (rule assemble_fail [OF nS nE F])
  next
    case (Some r)
    note fs = findValidSession_Some [OF Some]
    let ?st' = "st\<lparr>otp_sessions := snd (markAsUsed (otp_sessions st) (sess_id r))\<rparr>"
    have res: "?res = (reply 200 True ''OTP verified successfully'', ?st')"
      unfolding unf Some by simp
    have S: "?S" unfolding res by simp
    have E: "?E" unfolding E_iff using fs(1,2) by blast
    have snd_res: "snd ?res = st\<lparr>otp_sessions :=
        map (\<lambda>x. if sess_id x = sess_id r then x\<lparr>used := True\<rparr> else x) (otp_sessions st)\<rparr>"
      unfolding res snd_conv markAsUsed_rows by (rule refl)
    have mx: "\<forall>x \<in> set (otp_sessions st). ?P x \<longrightarrow> created_at x \<le> created_at r"
      using fs(3) by blast
    have M: "?M"
      by (rule bexI [OF _ fs(1)]) (intro conjI fs(2) mx snd_res)
    have F: "?F" if one: "?U"
    proof -
      have all_r: "\<forall>x \<in> set (filter ?P (otp_sessions st)). \<not> sess_id x \<noteq> sess_id r"
      proof (intro ballI)
        fix x assume "x \<in> set (filter ?P (otp_sessions st))"
        then have "x \<in> set (otp_sessions st)" "?P x" by simp_all
        with one fs(1,2) have "sess_id x = sess_id r" by blast
        then show "\<not> sess_id x \<noteq> sess_id r" by simp
      qed
      have "filter (\<lambda>x. sess_id x \<noteq> sess_id r) (filter ?P (otp_sessions st)) = []"
        using all_r by (simp only: filter_empty_conv)
      then have "filter ?P (snd (markAsUsed (otp_sessions st) (sess_id r))) = []"
        by (simp only: filter_valid_marked)
      then have none: "findValidSession (otp_sessions ?st') uid otp ''document_download'' now = None"
        by (simp add: findValidSession_def)
      have usr: "findUserById (users_table ?st') uid = Some u"
        using assms(3) by simp
      have "prod_handleVerifyDownloadOTP ?st' otp (Claims uid exp) now = (?bad, ?st')"
        unfolding prod_verify_unfold [OF assms(1,2) usr, unfolded uid] none by simp
      then show ?thesis unfolding res snd_conv by simp
    qed
    show ?thesis by (rule assemble_ok [OF S E M F])
  qed
qed

lemmas time_eval = toISOString_def sqlite_datetime_def date_text_def clock_text_def clock_of_def
  civil_from_days_def civil_of_doe_def civil_of_yoe_def civil_of_doy_def pad2_def pad3_def pad4_def
  digit_def

lemma sql_now_1202: "sqlite_datetime 1735732920000 = ''2025-01-01 12:02:00''"
  by (simp add: time_eval)

lemmas prod_verify_eval = prod_handleVerifyDownloadOTP_def findUserById_def findValidSession_def
  valid_session_def markAsUsed_def reply_def

text \<open>The theorem on a table with the one row \<open>row1\<close>, two minutes after the code was issued.\<close>

theorem verify_step_up_witness:
  "success (fst (prod_handleVerifyDownloadOTP prod_st1 ''123456'' (Claims ''u1'' 1735819200000) 1735732920000)) \<and>
   fst (prod_handleVerifyDownloadOTP
          (snd (prod_handleVerifyDownloadOTP prod_st1 ''123456'' (Claims ''u1'' 1735819200000) 1735732920000))
          ''123456'' (Claims ''u1'' 1735819200000) 1735732920000) =
     reply 400 False ''Invalid or expired OTP. Please verify your password again.''"
proof -
  have h1: "''123456'' \<noteq> []" by simp
  have h2: "\<not> (1735819200000::nat) < 1735732920000" by simp
  have h3: "findUserById (users_table prod_st1) ''u1'' = Some user1"
    by (simp add: prod_st1_def user1_def findUserById_def)
  have e: "\<exists>r \<in> set (otp_sessions prod_st1).
           user_id r = ''u1'' \<and> purpose r = ''document_download'' \<and> otp_code r = ''123456'' \<and>
           \<not> used r \<and> sqlite_datetime 1735732920000 < expires_at r"
    by (simp add: prod_st1_def row1_def sql_now_1202)
  have u: "\<forall>r \<in> set (otp_sessions prod_st1). \<forall>r' \<in> set (otp_sessions prod_st1).
         valid_session ''u1'' ''123456'' ''document_download'' 1735732920000 r \<and>
         valid_session ''u1'' ''123456'' ''document_download'' 1735732920000 r' \<longrightarrow> sess_id r = sess_id r'"
    by (simp add: prod_st1_def)
  show ?thesis
    using verify_step_up [OF h1 h2 h3] e u by blast
qed

text \<open>
  The claim as the specification words it (a repeated call with the same code fails)
  is false when two live rows of the account hold the same code, which nothing
  prevents: the first call consumes \<open>row2\<close>, the repeated call succeeds on \<open>row1\<close>.
\<close>

theorem repeated_code_counterexample:
  "success (fst (prod_handleVerifyDownloadOTP prod_st2 ''123456'' (Claims ''u1'' 1735819200000) 1735732920000)) \<and>
   success (fst (prod_handleVerifyDownloadOTP
          (snd (prod_handleVerifyDownloadOTP prod_st2 ''123456'' (Claims ''u1'' 1735819200000) 1735732920000))
          ''123456'' (Claims ''u1'' 1735819200000) 1735732920000))"
  by (simp add: prod_verify_eval prod_st2_def row1_def row2_def user1_def sql_now_1202)


section \<open>Expiry of a code\<close>

lemma generateOTP_example: "generateOTP 23456 = ''123456''"
  by (simp add: generateOTP_def dec.simps digit_def)

lemma dec_example: "dec 1735732800000 = ''1735732800000''"
  by (simp add: dec.simps digit_def)

lemma iso_example: "toISOString 1735733100000 = ''2025-01-01T12:05:00.000Z''"
  by (simp add: time_eval)

lemma sql_now_1200: "sqlite_datetime 1735732800000 = ''2025-01-01 12:00:00''"
  by (simp add: time_eval)

lemma sql_now_120500: "sqlite_datetime 1735733100000 = ''2025-01-01 12:05:00''"
  by (simp add: time_eval)

lemma sql_now_120500_001: "sqlite_datetime 1735733100001 = ''2025-01-01 12:05:00''"
  by (simp add: time_eval)

lemma sql_now_1305: "sqlite_datetime 1735736700000 = ''2025-01-01 13:05:00''"
  by (simp add: time_eval)

lemma issue_example:
  "prod_handleVerifyPasswordForDownload env_ok prod_st0 ''SecurePass2024!''
     (Claims ''u1'' 1735819200000) 1735732800000 23456 ''k3j9x2m1a'' =
   (reply 200 True ''OTP sent successfully to both email and phone'', prod_st1,
    [ByEmail ''a@x.com'' ''123456'', BySms ''+15551230000'' ''123456''])"
  by (simp add: prod_handleVerifyPasswordForDownload_def prod_issue_def otpService_create_def
        insert_session_def findUserById_def prod_st0_def prod_st1_def user1_def row1_def env_ok_def
        isConfigured_def prod_sendOTPToEmailAndPhone_def prod_sendOTPEmail_def prod_sendOTPSMS_def
        prod_classify_def emailTransporter_def twilioClient_def deliveries_def formattedPhone_def
        generateOTP_example dec_example iso_example sql_now_1200 del: One_nat_def)

text \<open>
  Whatever the times of day, a stored expiry passes the filter of the query at every
  instant of the same UTC date: the two texts agree on the date and then the space of
  \<^verbatim>\<open>datetime('now')\<close> is compared with the \<^verbatim>\<open>T\<close> of the ISO text.
\<close>

lemma append_less: "a < b \<Longrightarrow> xs @ a # r < xs @ b # r'" for a :: char
  by (induction xs) simp_all

lemma same_day_passes_filter:
  assumes "date_text now = date_text exp"
  shows "sqlite_datetime now < toISOString exp"
proof -
  have "CHR '' '' < CHR ''T''" by simp
  then have "date_text exp @ CHR '' '' # clock_text now <
             date_text exp @ CHR ''T'' # (clock_text exp @ ''.'' @ pad3 (exp mod 1000) @ ''Z'')"
    by (rule append_less)
  then show ?thesis
    unfolding sqlite_datetime_def toISOString_def assms by simp
qed

text \<open>
  Claim C3 at its failing input. The account \<open>u1\<close> requests a code at
  2025-01-01T12:00:00.000Z; the database route stores the row \<open>row1\<close> whose \<^verbatim>\<open>expires_at\<close> is
  the ISO text of the instant five minutes later. VerifyStepUp with the right code then
  succeeds at that instant, one millisecond after it, and an hour after it: the query
  compares \<^verbatim>\<open>2025-01-01T12:05:00.000Z\<close> with \<^verbatim>\<open>2025-01-01 13:05:00\<close> as text, and \<^verbatim>\<open>T\<close> is
  greater than the space. In the in-memory route the right code is accepted at exactly
  \<^verbatim>\<open>expiresAt\<close>, since the handler tests \<^verbatim>\<open>Date.now() > expiresAt\<close>.
\<close>

theorem expired_code_accepted:
  "fst (snd (prod_handleVerifyPasswordForDownload env_ok prod_st0 ''SecurePass2024!''
     (Claims ''u1'' 1735819200000) 1735732800000 23456 ''k3j9x2m1a'')) = prod_st1 \<and>
   map expires_at (otp_sessions prod_st1) = [toISOString (1735732800000 + 5 * 60 * 1000)] \<and>
   success (fst (prod_handleVerifyDownloadOTP prod_st1 ''123456'' (Claims ''u1'' 1735819200000)
                   (1735732800000 + 5 * 60 * 1000))) \<and>
   success (fst (prod_handleVerifyDownloadOTP prod_st1 ''123456'' (Claims ''u1'' 1735819200000)
                   (1735732800000 + 5 * 60 * 1000 + 1))) \<and>
   success (fst (prod_handleVerifyDownloadOTP prod_st1 ''123456'' (Claims ''u1'' 1735819200000)
                   (1735732800000 + 65 * 60 * 1000))) \<and>
   expiresAt (the (downloadOTPs dev_st1 ''u1'')) = 1735733100000 \<and>
   success (fst (dev_handleVerifyDownloadOTP dev_st1 ''123456'' (Claims ''u1'' 1735819200000)
                   1735733100000))"
  by (simp add: issue_example prod_verify_eval prod_st1_def row1_def user1_def iso_example
        sql_now_120500 sql_now_120500_001 sql_now_1305
        dev_handleVerifyDownloadOTP_def dev_check_otp_def dev_st1_def)


section \<open>RequestStepUp and the failure responses\<close>

lemma prod_request_unfold:
  assumes "pw \<noteq> []" "\<not> exp < now" "findUserById (users_table st) uid = Some u"
  shows "prod_handleVerifyPasswordForDownload env st pw (Claims uid exp) now rnd rid =
     (if \<not> bcrypt_compare env pw (password u)
      then (reply 401 False ''Invalid password'', st, [])
      else if \<not> isConfigured env
      then (reply 503 False
              ''OTP services are not configured. Please contact system administrator.'', st, [])
      else prod_issue env st u now rnd rid)"
  using assms by (simp add: prod_handleVerifyPasswordForDownload_def)

lemma dev_request_unfold:
  assumes "pw \<noteq> []" "\<not> exp < now" "findUserById (users st) uid = Some u"
  shows "dev_handleVerifyPasswordForDownload env st pw (Claims uid exp) now rnd =
     (if \<not> bcrypt_compare env pw (password u)
      then (reply 401 False ''Invalid password'', st, [])
      else dev_issue env st u now rnd)"
  using assms by (simp add: dev_handleVerifyPasswordForDownload_def)

lemma prod_request_empty:
  "prod_handleVerifyPasswordForDownload env st [] auth now rnd rid =
     (reply 400 False ''Password is required'', st, [])"
  by (simp add: prod_handleVerifyPasswordForDownload_def)

lemma dev_request_empty:
  "dev_handleVerifyPasswordForDownload env st [] auth now rnd =
     (reply 400 False ''Password is required'', st, [])"
  by (simp add: dev_handleVerifyPasswordForDownload_def)

text \<open>
  Claim C8, as the code has it. In both sets of routes, a RequestStepUp call of an
  existing account (valid session) with an incorrect password (an empty one, or one that
  \<^verbatim>\<open>bcrypt.compare\<close> rejects) leaves the state, ledger included, as it was and hands
  nothing to the providers. It is answered with 401 \<^verbatim>\<open>Invalid password\<close>, except that an
  empty password is answered with 400 \<^verbatim>\<open>Password is required\<close>.
\<close>

theorem wrong_password_creates_nothing:
  assumes "\<not> exp < now"
  shows "(findUserById (users_table pst) uid = Some u \<and>
          (pw = [] \<or> \<not> bcrypt_compare env pw (password u)) \<longrightarrow>
            prod_handleVerifyPasswordForDownload env pst pw (Claims uid exp) now rnd rid =
              (if pw = [] then reply 400 False ''Password is required''
               else reply 401 False ''Invalid password'', pst, [])) \<and>
         (findUserById (users dst) uid = Some u' \<and>
          (pw = [] \<or> \<not> bcrypt_compare env pw (password u')) \<longrightarrow>
            dev_handleVerifyPasswordForDownload env dst pw (Claims uid exp) now rnd =
              (if pw = [] then reply 400 False ''Password is required''
               else reply 401 False ''Invalid password'', dst, []))"
proof (cases "pw = []")
  case True
  show ?thesis unfolding True prod_request_empty dev_request_empty by simp
next
  case False
  show ?thesis using False assms by (simp add: prod_request_unfold dev_request_unfold)
qed

text \<open>The theorem at the password \<^verbatim>\<open>guess123\<close> and at the empty password, for the account \<open>u1\<close>.\<close>

theorem wrong_password_creates_nothing_witness:
  "prod_handleVerifyPasswordForDownload env_ok prod_st1 ''guess123'' (Claims ''u1'' 1735819200000)
      1735732920000 23456 ''k3j9x2m1a'' = (reply 401 False ''Invalid password'', prod_st1, []) \<and>
   dev_handleVerifyPasswordForDownload env_ok dev_st1 ''guess123'' (Claims ''u1'' 1735819200000)
      1735732920000 23456 = (reply 401 False ''Invalid password'', dev_st1, []) \<and>
   prod_handleVerifyPasswordForDownload env_ok prod_st1 [] (Claims ''u1'' 1735819200000)
      1735732920000 23456 ''k3j9x2m1a'' = (reply 400 False ''Password is required'', prod_st1, []) \<and>
   dev_handleVerifyPasswordForDownload env_ok dev_st1 [] (Claims ''u1'' 1735819200000)
      1735732920000 23456 = (reply 400 False ''Password is required'', dev_st1, [])"
proof -
  have h2: "\<not> (1735819200000::nat) < 1735732920000" by simp
  have p: "findUserById (users_table prod_st1) ''u1'' = Some user1 \<and>
           (''guess123'' = [] \<or> \<not> bcrypt_compare env_ok ''guess123'' (password user1))"
    by (simp add: prod_st1_def user1_def findUserById_def env_ok_def)
  have d: "findUserById (users dev_st1) ''u1'' = Some user1 \<and>
           (''guess123'' = [] \<or> \<not> bcrypt_compare env_ok ''guess123'' (password user1))"
    by (simp add: dev_st1_def user1_def findUserById_def env_ok_def)
  have p0: "findUserById (users_table prod_st1) ''u1'' = Some user1 \<and>
           (([]::string) = [] \<or> \<not> bcrypt_compare env_ok [] (password user1))"
    by (simp add: prod_st1_def user1_def findUserById_def)
  have d0: "findUserById (users dev_st1) ''u1'' = Some user1 \<and>
           (([]::string) = [] \<or> \<not> bcrypt_compare env_ok [] (password user1))"
    by (simp add: dev_st1_def user1_def findUserById_def)
  note t1 = wrong_password_creates_nothing [OF h2, where pst = prod_st1 and uid = "''u1''"
        and u = user1 and env = env_ok and dst = dev_st1 and u' = user1 and rnd = 23456
        and rid = "''k3j9x2m1a''" and pw = "''guess123''"]
  note t0 = wrong_password_creates_nothing [OF h2, where pst = prod_st1 and uid = "''u1''"
        and u = user1 and env = env_ok and dst = dev_st1 and u' = user1 and rnd = 23456
        and rid = "''k3j9x2m1a''" and pw = "[]"]
  have a: "prod_handleVerifyPasswordForDownload env_ok prod_st1 ''guess123'' (Claims ''u1'' 1735819200000)
      1735732920000 23456 ''k3j9x2m1a'' = (reply 401 False ''Invalid password'', prod_st1, [])"
    using t1 [THEN conjunct1, rule_format, OF p] by simp
  have b: "dev_handleVerifyPasswordForDownload env_ok dev_st1 ''guess123'' (Claims ''u1'' 1735819200000)
      1735732920000 23456 = (reply 401 False ''Invalid password'', dev_st1, [])"
    using t1 [THEN conjunct2, rule_format, OF d] by simp
  have c: "prod_handleVerifyPasswordForDownload env_ok prod_st1 [] (Claims ''u1'' 1735819200000)
      1735732920000 23456 ''k3j9x2m1a'' = (reply 400 False ''Password is required'', prod_st1, [])"
    using t0 [THEN conjunct1, rule_format, OF p0] by simp
  have e: "dev_handleVerifyPasswordForDownload env_ok dev_st1 [] (Claims ''u1'' 1735819200000)
      1735732920000 23456 = (reply 400 False ''Password is required'', dev_st1, [])"
    using t0 [THEN conjunct2, rule_format, OF d0] by simp
  show ?thesis by (intro conjI a b c e)
qed

text \<open>
  The claim as the specification words it (every incorrect password is answered with
  InvalidCredential) fails at the empty password, which both handlers refuse first.
\<close>

theorem empty_password_counterexample:
  "\<not> bcrypt_compare env_ok [] (password user1) \<and>
   fst (prod_handleVerifyPasswordForDownload env_ok prod_st1 [] (Claims ''u1'' 1735819200000)
      1735732920000 23456 ''k3j9x2m1a'') \<noteq> reply 401 False ''Invalid password'' \<and>
   fst (dev_handleVerifyPasswordForDownload env_ok dev_st1 [] (Claims ''u1'' 1735819200000)
      1735732920000 23456) \<noteq> reply 401 False ''Invalid password''"
  by (simp add: prod_request_empty dev_request_empty reply_def env_ok_def)









lemma dev_verify_unfold:
  assumes "otp \<noteq> []" "\<not> exp < now" "findUserById (users st) uid = Some u"
  shows "dev_handleVerifyDownloadOTP st otp (Claims uid exp) now = dev_check_otp st u otp now"
  using assms by (simp add: dev_handleVerifyDownloadOTP_def)








section \<open>A second code for the same account\<close>

lemma dec_nonempty: "dec n \<noteq> []"
  by (subst dec.simps) simp

lemma generateOTP_nonempty: "generateOTP r \<noteq> []"
  by (simp add: generateOTP_def dec_nonempty)

lemma prod_request_success:
  assumes "success (fst (prod_handleVerifyPasswordForDownload env st pw (Claims uid exp) t rnd rid))"
  shows "\<exists>u. findUserById (users_table st) uid = Some u \<and>
             prod_handleVerifyPasswordForDownload env st pw (Claims uid exp) t rnd rid =
               prod_issue env st u t rnd rid"
proof (cases "findUserById (users_table st) uid")
  case None
  then show ?thesis using assms
    by (simp add: prod_handleVerifyPasswordForDownload_def split: if_splits)
next
  case (Some u)
  then show ?thesis using assms
    by (simp add: prod_handleVerifyPasswordForDownload_def split: if_splits)
qed

lemma prod_issue_success:
  assumes "success (fst (prod_issue env st u t rnd rid))"
  shows "dec t @ rid \<notin> set (map sess_id (otp_sessions st)) \<and>
         fst (snd (prod_issue env st u t rnd rid)) =
           st\<lparr>otp_sessions := otp_sessions st @
               [\<lparr>sess_id = dec t @ rid, user_id = usr_id u, otp_code = generateOTP rnd,
                 purpose = ''document_download'', expires_at = toISOString (t + 5 * 60 * 1000),
                 used = False, created_at = sqlite_datetime t\<rparr>]\<rparr>"
  using assms
  by (simp add: prod_issue_def otpService_create_def insert_session_def split: if_splits)


lemma prod_verify_some:
  assumes "otp \<noteq> []" "\<not> exp < now" "findUserById (users_table st) uid = Some u"
    and "x \<in> set (otp_sessions st)" "valid_session uid otp ''document_download'' now x"
  shows "\<exists>s \<in> set (otp_sessions st). valid_session uid otp ''document_download'' now s \<and>
           prod_handleVerifyDownloadOTP st otp (Claims uid exp) now =
             (reply 200 True ''OTP verified successfully'',
              st\<lparr>otp_sessions := snd (markAsUsed (otp_sessions st) (sess_id s))\<rparr>)"
proof -
  have uid: "usr_id u = uid" using assms(3) by (rule findUserById_id)
  have "findValidSession (otp_sessions st) uid otp ''document_download'' now \<noteq> None"
    using assms(4,5) findValidSession_None by blast
  then obtain s where s: "findValidSession (otp_sessions st) uid otp ''document_download'' now = Some s"
    by blast
  note fs = findValidSession_Some [OF s]
  have "prod_handleVerifyDownloadOTP st otp (Claims uid exp) now =
             (reply 200 True ''OTP verified successfully'',
              st\<lparr>otp_sessions := snd (markAsUsed (otp_sessions st) (sess_id s))\<rparr>)"
    unfolding prod_verify_unfold [OF assms(1,2,3), unfolded uid] s by simp
  then show ?thesis using fs(1,2) by blast
qed

lemma unmarked_stays:
  "x \<in> set rows \<Longrightarrow> sess_id x \<noteq> i \<Longrightarrow> x \<in> set (snd (markAsUsed rows i))"
  unfolding markAsUsed_rows set_map by (rule image_eqI [of _ _ x]) simp_all

lemma distinct_ids_eq:
  "distinct (map sess_id rows) \<Longrightarrow> a \<in> set rows \<Longrightarrow> b \<in> set rows \<Longrightarrow>
   sess_id a = sess_id b \<Longrightarrow> a = b"
  by (meson distinct_map inj_on_def)

lemma two_codes:
  assumes dist: "distinct (map sess_id (otp_sessions st))"
    and call: "otp_code a \<noteq> []" "\<not> exp < now" "findUserById (users_table st) uid = Some u"
    and a: "a \<in> set (otp_sessions st)" "valid_session uid (otp_code a) ''document_download'' now a"
    and b: "b \<in> set (otp_sessions st)" "valid_session uid (otp_code b) ''document_download'' now b"
    and ab: "sess_id a \<noteq> sess_id b"
  shows "success (fst (prod_handleVerifyDownloadOTP st (otp_code a) (Claims uid exp) now)) \<and>
         users_table (snd (prod_handleVerifyDownloadOTP st (otp_code a) (Claims uid exp) now)) =
           users_table st \<and>
         (\<exists>y \<in> set (otp_sessions (snd (prod_handleVerifyDownloadOTP st (otp_code a) (Claims uid exp) now))).
             valid_session uid (otp_code b) ''document_download'' now y)"
proof -
  let ?res = "prod_handleVerifyDownloadOTP st (otp_code a) (Claims uid exp) now"
  obtain s where s: "s \<in> set (otp_sessions st)"
      "valid_session uid (otp_code a) ''document_download'' now s"
      "?res = (reply 200 True ''OTP verified successfully'',
              st\<lparr>otp_sessions := snd (markAsUsed (otp_sessions st) (sess_id s))\<rparr>)"
    using prod_verify_some [OF call a] by blast
  have rows: "otp_sessions (snd ?res) = snd (markAsUsed (otp_sessions st) (sess_id s))"
    unfolding s(3) by simp
  have 1: "success (fst ?res)" unfolding s(3) by simp
  have 2: "users_table (snd ?res) = users_table st" unfolding s(3) by simp
  have 3: "\<exists>y \<in> set (otp_sessions (snd ?res)). valid_session uid (otp_code b) ''document_download'' now y"
  proof (cases "sess_id s = sess_id b")
    case False
    then have "b \<in> set (otp_sessions (snd ?res))"
      unfolding rows using b(1) unmarked_stays by metis
    then show ?thesis using b(2) by blast
  next
    case True
    then have "s = b" using dist s(1) b(1) distinct_ids_eq by blast
    then have codes: "otp_code b = otp_code a"
      using s(2) unfolding valid_session_def by simp
    have "sess_id a \<noteq> sess_id s" using ab True by simp
    then have "a \<in> set (otp_sessions (snd ?res))"
      unfolding rows using a(1) unmarked_stays by metis
    then show ?thesis using a(2) codes by auto
  qed
  show ?thesis using 1 2 3 by blast
qed


text \<open>
  Claim C7, as the code has it. In the database route (row ids distinct, as the primary
  key makes them) a successful RequestStepUp appends one row and leaves the rows of the
  table as they were. At an instant at which an earlier unused row \<open>r\<close> of the account and
  the new row both pass the expiry filter, each of the two codes verifies, and verifying
  either first leaves the other verifiable. In the in-memory route the account's single
  entry holds the new code only.
\<close>

theorem second_code_keeps_first:
  assumes dist: "distinct (map sess_id (otp_sessions st))"
      and issue: "success (fst (prod_handleVerifyPasswordForDownload env st pw (Claims uid exp) t rnd rid))"
      and old: "r \<in> set (otp_sessions st)" "valid_session uid (otp_code r) ''document_download'' now r"
               "otp_code r \<noteq> []"
      and live: "sqlite_datetime now < toISOString (t + 5 * 60 * 1000)"
      and sess: "\<not> exp' < now"
  shows
    "otp_sessions (fst (snd (prod_handleVerifyPasswordForDownload env st pw (Claims uid exp) t rnd rid))) =
       otp_sessions st @
         [\<lparr>sess_id = dec t @ rid, user_id = uid, otp_code = generateOTP rnd,
           purpose = ''document_download'', expires_at = toISOString (t + 5 * 60 * 1000),
           used = False, created_at = sqlite_datetime t\<rparr>] \<and>
     success (fst (prod_handleVerifyDownloadOTP
        (fst (snd (prod_handleVerifyPasswordForDownload env st pw (Claims uid exp) t rnd rid)))
        (otp_code r) (Claims uid exp') now)) \<and>
     success (fst (prod_handleVerifyDownloadOTP
        (fst (snd (prod_handleVerifyPasswordForDownload env st pw (Claims uid exp) t rnd rid)))
        (generateOTP rnd) (Claims uid exp') now)) \<and>
     success (fst (prod_handleVerifyDownloadOTP
        (snd (prod_handleVerifyDownloadOTP
           (fst (snd (prod_handleVerifyPasswordForDownload env st pw (Claims uid exp) t rnd rid)))
           (otp_code r) (Claims uid exp') now))
        (generateOTP rnd) (Claims uid exp') now)) \<and>
     success (fst (prod_handleVerifyDownloadOTP
        (snd (prod_handleVerifyDownloadOTP
           (fst (snd (prod_handleVerifyPasswordForDownload env st pw (Claims uid exp) t rnd rid)))
           (generateOTP rnd) (Claims uid exp') now))
        (otp_code r) (Claims uid exp') now)) \<and>
     (\<forall>dst du. pw \<noteq> [] \<and> \<not> exp < t \<and> findUserById (users dst) uid = Some du \<and>
         bcrypt_compare env pw (password du) \<longrightarrow>
         downloadOTPs (fst (snd (dev_handleVerifyPasswordForDownload env dst pw (Claims uid exp) t rnd)))
           (usr_id du) = Some \<lparr>code = generateOTP rnd, expiresAt = t + 5 * 60 * 1000\<rparr>)"
proof -
  define new where "new = \<lparr>sess_id = dec t @ rid, user_id = uid, otp_code = generateOTP rnd,
           purpose = ''document_download'', expires_at = toISOString (t + 5 * 60 * 1000),
           used = False, created_at = sqlite_datetime t\<rparr>"
  define st' where "st' = fst (snd (prod_handleVerifyPasswordForDownload env st pw (Claims uid exp) t rnd rid))"
  obtain u where u: "findUserById (users_table st) uid = Some u"
      and H: "prod_handleVerifyPasswordForDownload env st pw (Claims uid exp) t rnd rid =
               prod_issue env st u t rnd rid"
    using prod_request_success [OF issue] by blast
  have uid: "usr_id u = uid" using u by (rule findUserById_id)
  have si: "success (fst (prod_issue env st u t rnd rid))" using issue unfolding H .
  note ps = prod_issue_success [OF si, unfolded uid, folded new_def]
  have fresh: "sess_id new \<notin> set (map sess_id (otp_sessions st))"
    using ps by (simp add: new_def)
  have st': "st' = st\<lparr>otp_sessions := otp_sessions st @ [new]\<rparr>"
    unfolding st'_def H using ps by blast
  have rows': "otp_sessions st' = otp_sessions st @ [new]" unfolding st' by simp
  have users': "findUserById (users_table st') uid = Some u" unfolding st' using u by simp
  have dist': "distinct (map sess_id (otp_sessions st'))"
    unfolding rows' using dist fresh by simp
  have code_new: "otp_code new = generateOTP rnd" by (simp add: new_def)
  have new_valid: "valid_session uid (otp_code new) ''document_download'' now new"
    using live by (simp add: valid_session_def new_def)
  have new_ne: "otp_code new \<noteq> []" unfolding code_new by (rule generateOTP_nonempty)
  have r_in: "r \<in> set (otp_sessions st')" and new_in: "new \<in> set (otp_sessions st')"
    unfolding rows' using old(1) by simp_all
  have "sess_id r \<in> set (map sess_id (otp_sessions st))" using old(1) by simp
  then have ids: "sess_id r \<noteq> sess_id new" using fresh by metis
  note rn = two_codes [OF dist' old(3) sess users' r_in old(2) new_in new_valid ids]
  note nr = two_codes [OF dist' new_ne sess users' new_in new_valid r_in old(2) ids [symmetric]]
  have 1: "success (fst (prod_handleVerifyDownloadOTP st' (otp_code r) (Claims uid exp') now))"
    using rn by blast
  have 2: "success (fst (prod_handleVerifyDownloadOTP st' (otp_code new) (Claims uid exp') now))"
    using nr by blast
  have 3: "success (fst (prod_handleVerifyDownloadOTP
        (snd (prod_handleVerifyDownloadOTP st' (otp_code r) (Claims uid exp') now))
        (otp_code new) (Claims uid exp') now))"
  proof -
    let ?s1 = "snd (prod_handleVerifyDownloadOTP st' (otp_code r) (Claims uid exp') now)"
    have us: "findUserById (users_table ?s1) uid = Some u" using rn users' by simp
    obtain y where y: "y \<in> set (otp_sessions ?s1)"
        "valid_session uid (otp_code new) ''document_download'' now y"
      using rn by blast
    show ?thesis using prod_verify_some [OF new_ne sess us y] by auto
  qed
  have 4: "success (fst (prod_handleVerifyDownloadOTP
        (snd (prod_handleVerifyDownloadOTP st' (otp_code new) (Claims uid exp') now))
        (otp_code r) (Claims uid exp') now))"
  proof -
    let ?s1 = "snd (prod_handleVerifyDownloadOTP st' (otp_code new) (Claims uid exp') now)"
    have us: "findUserById (users_table ?s1) uid = Some u" using nr users' by simp
    obtain y where y: "y \<in> set (otp_sessions ?s1)"
        "valid_session uid (otp_code r) ''document_download'' now y"
      using nr by blast
    show ?thesis using prod_verify_some [OF old(3) sess us y] by auto
  qed
  have 5: "downloadOTPs (fst (snd (dev_handleVerifyPasswordForDownload env dst pw (Claims uid exp) t rnd)))
           (usr_id du) = Some \<lparr>code = generateOTP rnd, expiresAt = t + 5 * 60 * 1000\<rparr>"
    if "pw \<noteq> [] \<and> \<not> exp < t \<and> findUserById (users dst) uid = Some du \<and>
         bcrypt_compare env pw (password du)" for dst du
    using that by (simp add: dev_request_unfold dev_issue_def)
  show ?thesis
    using rows' 1 2 3 4 5 unfolding code_new unfolding st'_def new_def by blast
qed


lemma generateOTP_example2: "generateOTP 530865 = ''630865''"
  by (simp add: generateOTP_def dec.simps digit_def)

lemma dec_example2: "dec 1735732860000 = ''1735732860000''"
  by (simp add: dec.simps digit_def)

lemma iso_example2: "toISOString 1735733160000 = ''2025-01-01T12:06:00.000Z''"
  by (simp add: time_eval)

lemma sql_now_1201: "sqlite_datetime 1735732860000 = ''2025-01-01 12:01:00''"
  by (simp add: time_eval)

lemma issue_example2:
  "prod_handleVerifyPasswordForDownload env_ok prod_st1 ''SecurePass2024!''
     (Claims ''u1'' 1735819200000) 1735732860000 530865 ''p0q9r8s7t'' =
   (reply 200 True ''OTP sent successfully to both email and phone'',
    prod_st1\<lparr>otp_sessions := [row1, row2\<lparr>otp_code := ''630865''\<rparr>]\<rparr>,
    [ByEmail ''a@x.com'' ''630865'', BySms ''+15551230000'' ''630865''])"
  by (simp add: prod_handleVerifyPasswordForDownload_def prod_issue_def otpService_create_def
        insert_session_def findUserById_def prod_st1_def user1_def row1_def row2_def env_ok_def
        isConfigured_def prod_sendOTPToEmailAndPhone_def prod_sendOTPEmail_def prod_sendOTPSMS_def
        prod_classify_def emailTransporter_def twilioClient_def deliveries_def formattedPhone_def
        generateOTP_example2 dec_example2 iso_example2 sql_now_1201 del: One_nat_def)

text \<open>The theorem for a second code issued at 12:01 and both codes submitted at 12:02.\<close>

theorem second_code_keeps_first_witness:
  "success (fst (prod_handleVerifyDownloadOTP
        (fst (snd (prod_handleVerifyPasswordForDownload env_ok prod_st1 ''SecurePass2024!''
           (Claims ''u1'' 1735819200000) 1735732860000 530865 ''p0q9r8s7t'')))
        ''123456'' (Claims ''u1'' 1735819200000) 1735732920000)) \<and>
   success (fst (prod_handleVerifyDownloadOTP
        (snd (prod_handleVerifyDownloadOTP
           (fst (snd (prod_handleVerifyPasswordForDownload env_ok prod_st1 ''SecurePass2024!''
              (Claims ''u1'' 1735819200000) 1735732860000 530865 ''p0q9r8s7t'')))
           ''123456'' (Claims ''u1'' 1735819200000) 1735732920000))
        ''630865'' (Claims ''u1'' 1735819200000) 1735732920000)) \<and>
   downloadOTPs (fst (snd (dev_handleVerifyPasswordForDownload env_ok dev_st1 ''SecurePass2024!''
      (Claims ''u1'' 1735819200000) 1735732860000 530865))) ''u1'' =
     Some \<lparr>code = ''630865'', expiresAt = 1735733160000\<rparr>"
proof -
  have dist: "distinct (map sess_id (otp_sessions prod_st1))" by (simp add: prod_st1_def)
  have issue: "success (fst (prod_handleVerifyPasswordForDownload env_ok prod_st1 ''SecurePass2024!''
           (Claims ''u1'' 1735819200000) 1735732860000 530865 ''p0q9r8s7t''))"
    by (simp add: issue_example2)
  have old: "row1 \<in> set (otp_sessions prod_st1)"
      "valid_session ''u1'' (otp_code row1) ''document_download'' 1735732920000 row1"
      "otp_code row1 \<noteq> []"
    by (simp_all add: prod_st1_def valid_session_def row1_def sql_now_1202)
  have live: "sqlite_datetime 1735732920000 < toISOString (1735732860000 + 5 * 60 * 1000)"
    by (simp add: sql_now_1202 iso_example2)
  have sess: "\<not> (1735819200000::nat) < 1735732920000" by simp
  have dev: "''SecurePass2024!'' \<noteq> [] \<and> \<not> (1735819200000::nat) < 1735732860000 \<and>
      findUserById (users dev_st1) ''u1'' = Some user1 \<and>
      bcrypt_compare env_ok ''SecurePass2024!'' (password user1)"
    by (simp add: dev_st1_def user1_def findUserById_def env_ok_def)
  note th = second_code_keeps_first [OF dist issue old live sess]
  from th have a: "success (fst (prod_handleVerifyDownloadOTP
        (fst (snd (prod_handleVerifyPasswordForDownload env_ok prod_st1 ''SecurePass2024!''
           (Claims ''u1'' 1735819200000) 1735732860000 530865 ''p0q9r8s7t'')))
        (otp_code row1) (Claims ''u1'' 1735819200000) 1735732920000))"
    by blast
  from th have b: "success (fst (prod_handleVerifyDownloadOTP
        (snd (prod_handleVerifyDownloadOTP
           (fst (snd (prod_handleVerifyPasswordForDownload env_ok prod_st1 ''SecurePass2024!''
              (Claims ''u1'' 1735819200000) 1735732860000 530865 ''p0q9r8s7t'')))
           (otp_code row1) (Claims ''u1'' 1735819200000) 1735732920000))
        (generateOTP 530865) (Claims ''u1'' 1735819200000) 1735732920000))"
    by blast
  from th dev have c: "downloadOTPs (fst (snd (dev_handleVerifyPasswordForDownload env_ok dev_st1
      ''SecurePass2024!'' (Claims ''u1'' 1735819200000) 1735732860000 530865))) (usr_id user1) =
     Some \<lparr>code = generateOTP 530865, expiresAt = 1735732860000 + 5 * 60 * 1000\<rparr>"
    by blast
  have oc: "otp_code row1 = ''123456''" by (simp add: row1_def)
  have ui: "usr_id user1 = ''u1''" by (simp add: user1_def)
  show ?thesis
    using a b c unfolding oc ui generateOTP_example2 by simp
qed

text \<open>
  The claim as the specification words it fails on the in-memory route: the code
  \<^verbatim>\<open>123456\<close> verifies before the second RequestStepUp and is refused after it.
\<close>

theorem replaced_code_counterexample:
  "success (fst (dev_handleVerifyDownloadOTP dev_st1 ''123456'' (Claims ''u1'' 1735819200000)
      1735732920000)) \<and>
   success (fst (dev_handleVerifyPasswordForDownload env_ok dev_st1 ''SecurePass2024!''
      (Claims ''u1'' 1735819200000) 1735732860000 530865)) \<and>
   \<not> success (fst (dev_handleVerifyDownloadOTP
      (fst (snd (dev_handleVerifyPasswordForDownload env_ok dev_st1 ''SecurePass2024!''
         (Claims ''u1'' 1735819200000) 1735732860000 530865)))
      ''123456'' (Claims ''u1'' 1735819200000) 1735732920000))"
  by (simp add: dev_handleVerifyDownloadOTP_def dev_check_otp_def dev_handleVerifyPasswordForDownload_def
        dev_issue_def dev_st1_def user1_def findUserById_def env_ok_def generateOTP_example2)


section \<open>An expired code in the in-memory routes\<close>

lemma dev_no_otp:
  assumes "otp \<noteq> []" "\<not> exp < now" "findUserById (users st) uid = Some u"
    and "downloadOTPs st uid = None"
  shows "dev_handleVerifyDownloadOTP st otp (Claims uid exp) now =
           (reply 400 False ''No OTP found. Please verify your password first.'', st)"
proof -
  have uid: "usr_id u = uid" using assms(3) by (rule findUserById_id)
  show ?thesis
    unfolding dev_verify_unfold [OF assms(1,2,3)] dev_check_otp_def uid assms(4) by simp
qed

lemma dev_verify_empty:
  "dev_handleVerifyDownloadOTP st [] auth now = (reply 400 False ''OTP is required'', st)"
  by (simp add: dev_handleVerifyDownloadOTP_def)

lemma dev_calls_after_deletion:
  assumes "findUserById (users st) uid = Some u" "downloadOTPs st uid = None"
    and "\<forall>c \<in> set calls. \<exists>exp'. fst (snd c) = Claims uid exp' \<and> \<not> exp' < snd (snd c)"
  shows "dev_verify_calls st calls =
           map (\<lambda>c. if fst c = [] then reply 400 False ''OTP is required''
                     else reply 400 False ''No OTP found. Please verify your password first.'') calls"
  using assms(3)
proof (induction calls)
  case Nil
  show ?case by simp
next
  case (Cons c calls)
  obtain otp auth now where c: "c = (otp, auth, now)" by (cases c) auto
  from Cons.prems c obtain exp' where wf: "auth = Claims uid exp'" "\<not> exp' < now"
    by auto
  have step: "dev_handleVerifyDownloadOTP st otp auth now =
           (if otp = [] then reply 400 False ''OTP is required''
            else reply 400 False ''No OTP found. Please verify your password first.'', st)"
  proof (cases "otp = []")
    case True
    show ?thesis unfolding True dev_verify_empty by simp
  next
    case False
    show ?thesis unfolding wf(1) dev_no_otp [OF False wf(2) assms(1,2)] using False by simp
  qed
  have rest: "dev_verify_calls st calls =
           map (\<lambda>c. if fst c = [] then reply 400 False ''OTP is required''
                     else reply 400 False ''No OTP found. Please verify your password first.'') calls"
    using Cons.IH Cons.prems by simp
  show ?case unfolding c using step rest by simp
qed

lemma dev_expired_first:
  assumes "otp \<noteq> [] \<and> \<not> exp < now \<and> findUserById (users st) uid = Some u \<and>
           downloadOTPs st uid = Some e \<and> now > expiresAt e"
  shows "fst (dev_handleVerifyDownloadOTP st otp (Claims uid exp) now) =
           reply 400 False ''OTP expired. Please verify your password again.'' \<and>
         snd (dev_handleVerifyDownloadOTP st otp (Claims uid exp) now) =
           st\<lparr>downloadOTPs := (downloadOTPs st)(uid := None)\<rparr> \<and>
         snd (dev_handleVerifyDownloadOTP st otp (Claims uid exp) now) \<noteq> st \<and>
         (\<forall>calls.
            (\<forall>c \<in> set calls. \<exists>exp'. fst (snd c) = Claims uid exp' \<and> \<not> exp' < snd (snd c)) \<longrightarrow>
            dev_verify_calls (snd (dev_handleVerifyDownloadOTP st otp (Claims uid exp) now)) calls =
              map (\<lambda>c. if fst c = [] then reply 400 False ''OTP is required''
                        else reply 400 False ''No OTP found. Please verify your password first.'')
                calls)"
proof -
  from assms have a1: "otp \<noteq> []" and a2: "\<not> exp < now"
    and a3: "findUserById (users st) uid = Some u" and a4: "downloadOTPs st uid = Some e"
    and a5: "now > expiresAt e" by blast+
  let ?st' = "st\<lparr>downloadOTPs := (downloadOTPs st)(uid := None)\<rparr>"
  have uid: "usr_id u = uid" using a3 by (rule findUserById_id)
  have res: "dev_handleVerifyDownloadOTP st otp (Claims uid exp) now =
               (reply 400 False ''OTP expired. Please verify your password again.'', ?st')"
    unfolding dev_verify_unfold [OF a1 a2 a3] dev_check_otp_def uid a4
    using a5 by simp
  have 1: "fst (dev_handleVerifyDownloadOTP st otp (Claims uid exp) now) =
           reply 400 False ''OTP expired. Please verify your password again.''"
    unfolding res by simp
  have 2: "snd (dev_handleVerifyDownloadOTP st otp (Claims uid exp) now) = ?st'"
    unfolding res by simp
  have "downloadOTPs ?st' uid \<noteq> downloadOTPs st uid" using a4 by simp
  then have "?st' \<noteq> st" by metis
  then have 3: "snd (dev_handleVerifyDownloadOTP st otp (Claims uid exp) now) \<noteq> st"
    unfolding 2 .
  have us: "findUserById (users ?st') uid = Some u" using a3 by simp
  have no: "downloadOTPs ?st' uid = None" by simp
  have 4: "\<forall>calls.
            (\<forall>c \<in> set calls. \<exists>exp'. fst (snd c) = Claims uid exp' \<and> \<not> exp' < snd (snd c)) \<longrightarrow>
            dev_verify_calls (snd (dev_handleVerifyDownloadOTP st otp (Claims uid exp) now)) calls =
              map (\<lambda>c. if fst c = [] then reply 400 False ''OTP is required''
                        else reply 400 False ''No OTP found. Please verify your password first.'')
                calls"
    unfolding 2 using dev_calls_after_deletion [OF us no] by blast
  show ?thesis by (intro conjI 1 2 3 4)
qed

lemma doc_verify_unfold:
  assumes "authenticated auth now = Some duid"
    and "find (\<lambda>x. doc_id x = k \<and> userId x = duid) (documents st) = Some d"
  shows "handleVerifyOTP st auth k otp now = check_doc_otp st d k otp now"
  using assms by (simp add: handleVerifyOTP_def)

lemma doc_no_otp:
  assumes "authenticated auth now = Some duid"
    and "find (\<lambda>x. doc_id x = k \<and> userId x = duid) (documents st) = Some d"
    and "otps st k = None"
  shows "handleVerifyOTP st auth k otp now =
           (refuse 400 ''No OTP found. Please request a new one.'', st)"
  unfolding doc_verify_unfold [OF assms(1,2)] check_doc_otp_def assms(3) by simp

lemma doc_calls_after_deletion:
  assumes "find (\<lambda>x. doc_id x = k \<and> userId x = duid) (documents st) = Some d"
    and "otps st k = None"
    and "\<forall>c \<in> set calls. authenticated (fst c) (snd (snd c)) = Some duid"
  shows "\<forall>resp \<in> set (doc_verify_calls st k calls).
           resp = refuse 400 ''No OTP found. Please request a new one.''"
  using assms(3)
proof (induction calls)
  case Nil
  show ?case by simp
next
  case (Cons c calls)
  obtain auth otp now where c: "c = (auth, otp, now)" by (cases c) auto
  from Cons.prems c have wf: "authenticated auth now = Some duid" by auto
  have step: "handleVerifyOTP st auth k otp now =
           (refuse 400 ''No OTP found. Please request a new one.'', st)"
    by (rule doc_no_otp [OF wf assms(1,2)])
  have rest: "\<forall>resp \<in> set (doc_verify_calls st k calls).
           resp = refuse 400 ''No OTP found. Please request a new one.''"
    using Cons.IH Cons.prems by simp
  show ?case unfolding c using step rest by simp
qed

lemma doc_expired_first:
  assumes "authenticated auth now = Some duid \<and>
           find (\<lambda>x. doc_id x = k \<and> userId x = duid) (documents st) = Some d \<and>
           otps st k = Some de \<and> now > expiresAt de"
  shows "fst (handleVerifyOTP st auth k otp now) =
           refuse 400 ''OTP expired. Please request a new one.'' \<and>
         snd (handleVerifyOTP st auth k otp now) = st\<lparr>otps := (otps st)(k := None)\<rparr> \<and>
         snd (handleVerifyOTP st auth k otp now) \<noteq> st \<and>
         (\<forall>calls.
            (\<forall>c \<in> set calls. authenticated (fst c) (snd (snd c)) = Some duid) \<longrightarrow>
            (\<forall>resp \<in> set (doc_verify_calls (snd (handleVerifyOTP st auth k otp now)) k calls).
                resp = refuse 400 ''No OTP found. Please request a new one.''))"
proof -
  from assms have a1: "authenticated auth now = Some duid"
    and a2: "find (\<lambda>x. doc_id x = k \<and> userId x = duid) (documents st) = Some d"
    and a3: "otps st k = Some de" and a4: "now > expiresAt de" by blast+
  let ?st' = "st\<lparr>otps := (otps st)(k := None)\<rparr>"
  have res: "handleVerifyOTP st auth k otp now =
               (refuse 400 ''OTP expired. Please request a new one.'', ?st')"
    unfolding doc_verify_unfold [OF a1 a2] check_doc_otp_def a3 using a4 by simp
  have 1: "fst (handleVerifyOTP st auth k otp now) =
           refuse 400 ''OTP expired. Please request a new one.''"
    unfolding res by simp
  have 2: "snd (handleVerifyOTP st auth k otp now) = ?st'" unfolding res by simp
  have "otps ?st' k \<noteq> otps st k" using a3 by simp
  then have "?st' \<noteq> st" by metis
  then have 3: "snd (handleVerifyOTP st auth k otp now) \<noteq> st" unfolding 2 .
  have docs: "find (\<lambda>x. doc_id x = k \<and> userId x = duid) (documents ?st') = Some d"
    using a2 by simp
  have no: "otps ?st' k = None" by simp
  have 4: "\<forall>calls.
            (\<forall>c \<in> set calls. authenticated (fst c) (snd (snd c)) = Some duid) \<longrightarrow>
            (\<forall>resp \<in> set (doc_verify_calls (snd (handleVerifyOTP st auth k otp now)) k calls).
                resp = refuse 400 ''No OTP found. Please request a new one.'')"
    unfolding 2 using doc_calls_after_deletion [OF docs no] by blast
  show ?thesis by (intro conjI 1 2 3 4)
qed


text \<open>
  Claim C9, as the code has it. In \<open>dev_handleVerifyDownloadOTP\<close> (routes/auth.ts) a call
  with a non-empty code and a valid session, made after the account's stored code has
  expired, is answered with the expired-code error and deletes the stored code, so the
  state is not the state before the call; every later call of the account is answered
  with the no-code-found error, or with \<^verbatim>\<open>OTP is required\<close> when its code is empty, and an
  empty code deletes nothing. \<open>handleVerifyOTP\<close> (routes/documents.ts) does the same for the
  code stored for a document, whatever code is submitted: the owner's first call after the
  expiry is answered with its expired-code error and deletes the code, every later call of
  the owner for that document with its no-code-found error.
\<close>

theorem expired_code_deleted_on_error:
  "(otp \<noteq> [] \<and> \<not> exp < now \<and> findUserById (users st) uid = Some u \<and>
    downloadOTPs st uid = Some e \<and> now > expiresAt e \<longrightarrow>
      fst (dev_handleVerifyDownloadOTP st otp (Claims uid exp) now) =
        reply 400 False ''OTP expired. Please verify your password again.'' \<and>
      snd (dev_handleVerifyDownloadOTP st otp (Claims uid exp) now) =
        st\<lparr>downloadOTPs := (downloadOTPs st)(uid := None)\<rparr> \<and>
      snd (dev_handleVerifyDownloadOTP st otp (Claims uid exp) now) \<noteq> st \<and>
      (\<forall>calls.
         (\<forall>c \<in> set calls. \<exists>exp'. fst (snd c) = Claims uid exp' \<and> \<not> exp' < snd (snd c)) \<longrightarrow>
         dev_verify_calls (snd (dev_handleVerifyDownloadOTP st otp (Claims uid exp) now)) calls =
           map (\<lambda>c. if fst c = [] then reply 400 False ''OTP is required''
                     else reply 400 False ''No OTP found. Please verify your password first.'')
             calls)) \<and>
   dev_handleVerifyDownloadOTP st [] auth0 now0 = (reply 400 False ''OTP is required'', st) \<and>
   (authenticated auth dnow = Some duid \<and>
    find (\<lambda>x. doc_id x = k \<and> userId x = duid) (documents st) = Some d \<and>
    otps st k = Some de \<and> dnow > expiresAt de \<longrightarrow>
      fst (handleVerifyOTP st auth k dotp dnow) =
        refuse 400 ''OTP expired. Please request a new one.'' \<and>
      snd (handleVerifyOTP st auth k dotp dnow) = st\<lparr>otps := (otps st)(k := None)\<rparr> \<and>
      snd (handleVerifyOTP st auth k dotp dnow) \<noteq> st \<and>
      (\<forall>calls.
         (\<forall>c \<in> set calls. authenticated (fst c) (snd (snd c)) = Some duid) \<longrightarrow>
         (\<forall>resp \<in> set (doc_verify_calls (snd (handleVerifyOTP st auth k dotp dnow)) k calls).
             resp = refuse 400 ''No OTP found. Please request a new one.'')))"
proof (intro conjI)
  show "otp \<noteq> [] \<and> \<not> exp < now \<and> findUserById (users st) uid = Some u \<and>
    downloadOTPs st uid = Some e \<and> now > expiresAt e \<longrightarrow>
      fst (dev_handleVerifyDownloadOTP st otp (Claims uid exp) now) =
        reply 400 False ''OTP expired. Please verify your password again.'' \<and>
      snd (dev_handleVerifyDownloadOTP st otp (Claims uid exp) now) =
        st\<lparr>downloadOTPs := (downloadOTPs st)(uid := None)\<rparr> \<and>
      snd (dev_handleVerifyDownloadOTP st otp (Claims uid exp) now) \<noteq> st \<and>
      (\<forall>calls.
         (\<forall>c \<in> set calls. \<exists>exp'. fst (snd c) = Claims uid exp' \<and> \<not> exp' < snd (snd c)) \<longrightarrow>
         dev_verify_calls (snd (dev_handleVerifyDownloadOTP st otp (Claims uid exp) now)) calls =
           map (\<lambda>c. if fst c = [] then reply 400 False ''OTP is required''
                     else reply 400 False ''No OTP found. Please verify your password first.'')
             calls)"
    by (rule impI) (erule dev_expired_first)
  show "dev_handleVerifyDownloadOTP st [] auth0 now0 = (reply 400 False ''OTP is required'', st)"
    by (rule dev_verify_empty)
  show "authenticated auth dnow = Some duid \<and>
    find (\<lambda>x. doc_id x = k \<and> userId x = duid) (documents st) = Some d \<and>
    otps st k = Some de \<and> dnow > expiresAt de \<longrightarrow>
      fst (handleVerifyOTP st auth k dotp dnow) =
        refuse 400 ''OTP expired. Please request a new one.'' \<and>
      snd (handleVerifyOTP st auth k dotp dnow) = st\<lparr>otps := (otps st)(k := None)\<rparr> \<and>
      snd (handleVerifyOTP st auth k dotp dnow) \<noteq> st \<and>
      (\<forall>calls.
         (\<forall>c \<in> set calls. authenticated (fst c) (snd (snd c)) = Some duid) \<longrightarrow>
         (\<forall>resp \<in> set (doc_verify_calls (snd (handleVerifyOTP st auth k dotp dnow)) k calls).
             resp = refuse 400 ''No OTP found. Please request a new one.''))"
    by (rule impI) (erule doc_expired_first)
qed

lemma authenticated_example2:
  "authenticated (Claims ''u1'' 1735819200000) 1735733100001 = Some ''u1''"
  "authenticated (Claims ''u1'' 1735819200000) 1735733100002 = Some ''u1''"
  "authenticated (Claims ''u1'' 1735819200000) 1735733100003 = Some ''u1''"
  by (simp_all add: authenticated_def getUserFromToken_def)

text \<open>
  The theorem one millisecond past the expiry, followed by two more calls, one of them
  with an empty code, for the account \<open>u1\<close> and for its document \<open>doc1\<close>.
\<close>

theorem expired_code_deleted_on_error_witness:
  "fst (dev_handleVerifyDownloadOTP dev_st1 ''123456'' (Claims ''u1'' 1735819200000) 1735733100001) =
     reply 400 False ''OTP expired. Please verify your password again.'' \<and>
   snd (dev_handleVerifyDownloadOTP dev_st1 ''123456'' (Claims ''u1'' 1735819200000) 1735733100001)
     \<noteq> dev_st1 \<and>
   dev_verify_calls
     (snd (dev_handleVerifyDownloadOTP dev_st1 ''123456'' (Claims ''u1'' 1735819200000) 1735733100001))
     [(''123456'', Claims ''u1'' 1735819200000, 1735733100002),
      ([], Claims ''u1'' 1735819200000, 1735733100003)] =
     [reply 400 False ''No OTP found. Please verify your password first.'',
      reply 400 False ''OTP is required''] \<and>
   fst (handleVerifyOTP dev_st2 (Claims ''u1'' 1735819200000) ''1735732800000k3j9x2m1a'' ''123456''
          1735733100001) = refuse 400 ''OTP expired. Please request a new one.'' \<and>
   snd (handleVerifyOTP dev_st2 (Claims ''u1'' 1735819200000) ''1735732800000k3j9x2m1a'' ''123456''
          1735733100001) \<noteq> dev_st2 \<and>
   doc_verify_calls
     (snd (handleVerifyOTP dev_st2 (Claims ''u1'' 1735819200000) ''1735732800000k3j9x2m1a'' ''123456''
          1735733100001))
     ''1735732800000k3j9x2m1a''
     [(Claims ''u1'' 1735819200000, ''123456'', 1735733100002),
      (Claims ''u1'' 1735819200000, [], 1735733100003)] =
     [refuse 400 ''No OTP found. Please request a new one.'',
      refuse 400 ''No OTP found. Please request a new one.'']"
proof -
  let ?auth = "Claims ''u1'' 1735819200000"
  let ?k = "''1735732800000k3j9x2m1a''"
  let ?e = "\<lparr>code = ''123456'', expiresAt = 1735733100000\<rparr>"
  let ?de = "\<lparr>code = ''123456'', expiresAt = 1735733100000, contact = ''a@x.com''\<rparr>"
  have h1: "''123456'' \<noteq> [] \<and> \<not> (1735819200000::nat) < 1735733100001 \<and>
      findUserById (users dev_st1) ''u1'' = Some user1 \<and> downloadOTPs dev_st1 ''u1'' = Some ?e \<and>
      1735733100001 > expiresAt ?e"
    by (simp add: dev_st1_def user1_def findUserById_def)
  have h3: "authenticated ?auth 1735733100001 = Some ''u1'' \<and>
      find (\<lambda>x. doc_id x = ?k \<and> userId x = ''u1'') (documents dev_st2) = Some doc1 \<and>
      otps dev_st2 ?k = Some ?de \<and> 1735733100001 > expiresAt ?de"
    by (simp add: authenticated_example2 dev_st2_def doc1_def)
  let ?calls = "[(''123456'', ?auth, 1735733100002), ([], ?auth, 1735733100003)]"
  let ?dcalls = "[(?auth, ''123456'', 1735733100002), (?auth, [], 1735733100003)]"
  have wf: "\<forall>c \<in> set ?calls. \<exists>exp'. fst (snd c) = Claims ''u1'' exp' \<and> \<not> exp' < snd (snd c)"
    by simp
  have dwf: "\<forall>c \<in> set ?dcalls. authenticated (fst c) (snd (snd c)) = Some ''u1''"
    by (simp add: authenticated_example2)
  note th = expired_code_deleted_on_error [where st = dev_st1 and otp = "''123456''"
      and exp = 1735819200000 and now = 1735733100001 and uid = "''u1''" and u = user1 and e = ?e]
  note th3 = expired_code_deleted_on_error [where st = dev_st2 and auth = ?auth
      and dnow = 1735733100001 and duid = "''u1''" and k = ?k and d = doc1 and de = ?de
      and dotp = "''123456''"]
  note p1 = th [THEN conjunct1, rule_format, OF h1]
  note p3 = th3 [THEN conjunct2, THEN conjunct2, rule_format, OF h3]
  note a = p1 [THEN conjunct1]
  note b = p1 [THEN conjunct2, THEN conjunct2, THEN conjunct1]
  note c0 = p1 [THEN conjunct2, THEN conjunct2, THEN conjunct2, THEN spec, THEN mp, OF wf]
  have c: "dev_verify_calls
     (snd (dev_handleVerifyDownloadOTP dev_st1 ''123456'' ?auth 1735733100001)) ?calls =
     [reply 400 False ''No OTP found. Please verify your password first.'',
      reply 400 False ''OTP is required'']"
    unfolding c0 by simp
  note d = p3 [THEN conjunct1]
  note e = p3 [THEN conjunct2, THEN conjunct2, THEN conjunct1]
  note f0 = p3 [THEN conjunct2, THEN conjunct2, THEN conjunct2, THEN spec, THEN mp, OF dwf]
  have f: "doc_verify_calls
     (snd (handleVerifyOTP dev_st2 ?auth ?k ''123456'' 1735733100001)) ?k ?dcalls =
     [refuse 400 ''No OTP found. Please request a new one.'',
      refuse 400 ''No OTP found. Please request a new one.'']"
    using f0 by simp
  show ?thesis by (intro conjI a b c d e f)
qed

text \<open>
  The claim as the specification words it (every later call, with any submitted code,
  gets the no-code-found error) fails in routes/auth.ts at the empty code.
\<close>

theorem empty_code_counterexample:
  "fst (dev_handleVerifyDownloadOTP
          (snd (dev_handleVerifyDownloadOTP dev_st1 ''123456'' (Claims ''u1'' 1735819200000)
                  1735733100001))
          [] (Claims ''u1'' 1735819200000) 1735733100002) \<noteq>
     reply 400 False ''No OTP found. Please verify your password first.''"
  by (simp add: dev_verify_empty reply_def)

section \<open>Deleting a document\<close>

lemma findIndex_Some:
  "findIndex P xs = Some i \<Longrightarrow> i < length xs \<and> P (xs ! i)"
proof (induction xs arbitrary: i)
  case Nil
  then show ?case by simp
next
  case (Cons x xs)
  show ?case
  proof (cases "P x")
    case True
    then show ?thesis using Cons.prems by simp
  next
    case False
    then obtain j where j: "findIndex P xs = Some j" "i = Suc j"
      using Cons.prems by (auto split: option.splits)
    then show ?thesis using Cons.IH [OF j(1)] by simp
  qed
qed

lemma set_splice1: "set (splice1 i xs) \<subseteq> set xs"
  unfolding splice1_def using set_take_subset [of i xs] set_drop_subset [of "Suc i" xs] by auto

lemma splice1_distinct_key:
  assumes "distinct (map f xs)" "i < length xs" "d \<in> set (splice1 i xs)"
  shows "f d \<noteq> f (xs ! i)"
proof -
  have xs: "xs = take i xs @ xs ! i # drop (Suc i) xs"
    using assms(2) by (simp add: id_take_nth_drop)
  have "distinct (map f (take i xs @ xs ! i # drop (Suc i) xs))"
    using assms(1) xs by simp
  then have "f (xs ! i) \<notin> f ` set (take i xs)" "f (xs ! i) \<notin> f ` set (drop (Suc i) xs)"
    by auto
  moreover have "d \<in> set (take i xs) \<or> d \<in> set (drop (Suc i) xs)"
    using assms(3) unfolding splice1_def by simp
  ultimately show ?thesis by (metis image_eqI)
qed

lemma find_gone:
  "\<forall>d \<in> set ds. doc_id d \<noteq> ident \<Longrightarrow> find (\<lambda>d. doc_id d = ident \<and> userId d = uid) ds = None"
  unfolding find_None_iff by blast

lemma verify_gone:
  assumes "gone ident st"
  shows "\<not> success (fst (handleVerifyOTP st auth ident otp now)) \<and>
         snd (handleVerifyOTP st auth ident otp now) = st"
  using assms find_gone [of "documents st" ident]
  by (simp add: gone_def handleVerifyOTP_def refuse_def split: option.splits)


lemma find_Some_key:
  "find (\<lambda>d. doc_id d = k \<and> userId d = uid) ds = Some d \<Longrightarrow> d \<in> set ds \<and> doc_id d = k"
  unfolding find_Some_iff by (metis nth_mem)

lemma send_state:
  "fst (snd (handleSendOTP env st auth k now rnd)) = st \<or>
   (\<exists>d \<in> set (documents st). doc_id d = k \<and>
      (\<exists>entry. fst (snd (handleSendOTP env st auth k now rnd)) = st\<lparr>otps := (otps st)(k \<mapsto> entry)\<rparr>))"
proof (cases "authenticated auth now")
  case None
  then show ?thesis by (simp add: handleSendOTP_def)
next
  case (Some uid)
  show ?thesis
  proof (cases "find (\<lambda>d. doc_id d = k \<and> userId d = uid) (documents st)")
    case None
    then show ?thesis using Some by (simp add: handleSendOTP_def)
  next
    case (Some d)
    note d = find_Some_key [OF Some]
    show ?thesis
    proof (cases "findUserById (users st) uid")
      case None
      then show ?thesis using Some \<open>authenticated auth now = Some uid\<close>
        by (simp add: handleSendOTP_def)
    next
      case (Some u)
      show ?thesis
      proof (cases "k = [] \<or> \<not> isSecure d")
        case True
        then show ?thesis
          using Some \<open>find (\<lambda>d. doc_id d = k \<and> userId d = uid) (documents st) = Some d\<close>
            \<open>authenticated auth now = Some uid\<close>
          by (auto simp add: handleSendOTP_def)
      next
        case False
        then have "fst (snd (handleSendOTP env st auth k now rnd)) =
           st\<lparr>otps := (otps st)(k \<mapsto> \<lparr>code = generateOTP rnd, expiresAt = now + 5 * 60 * 1000,
                                        contact = email u\<rparr>)\<rparr>"
          using Some \<open>find (\<lambda>d. doc_id d = k \<and> userId d = uid) (documents st) = Some d\<close>
            \<open>authenticated auth now = Some uid\<close>
          by (simp add: handleSendOTP_def)
        then show ?thesis using d by blast
      qed
    qed
  qed
qed

lemma send_gone:
  assumes "gone ident st"
  shows "gone ident (fst (snd (handleSendOTP env st auth k now rnd)))"
proof -
  from send_state [of env st auth k now rnd] show ?thesis
  proof
    assume "fst (snd (handleSendOTP env st auth k now rnd)) = st"
    then show ?thesis using assms by simp
  next
    assume "\<exists>d \<in> set (documents st). doc_id d = k \<and>
      (\<exists>entry. fst (snd (handleSendOTP env st auth k now rnd)) = st\<lparr>otps := (otps st)(k \<mapsto> entry)\<rparr>)"
    then obtain d entry where d: "d \<in> set (documents st)" "doc_id d = k"
      and st': "fst (snd (handleSendOTP env st auth k now rnd)) = st\<lparr>otps := (otps st)(k \<mapsto> entry)\<rparr>"
      by blast
    have "k \<noteq> ident" using assms d unfolding gone_def by blast
    then show ?thesis using assms unfolding st' gone_def by simp
  qed
qed

lemma verify_state:
  "snd (handleVerifyOTP st auth k otp now) = st \<or>
   snd (handleVerifyOTP st auth k otp now) = st\<lparr>otps := (otps st)(k := None)\<rparr>"
  by (simp add: handleVerifyOTP_def check_doc_otp_def split: option.splits)

lemma verify_keeps_gone:
  assumes "gone ident st"
  shows "gone ident (snd (handleVerifyOTP st auth k otp now))"
  using verify_state [of st auth k otp now] assms unfolding gone_def by auto

lemma delete_state:
  "snd (handleDeleteDocument st auth k now) = st \<or>
   (\<exists>i. snd (handleDeleteDocument st auth k now) =
      st\<lparr>documents := splice1 i (documents st), otps := (otps st)(k := None)\<rparr>)"
  by (auto simp add: handleDeleteDocument_def split: option.splits)

lemma delete_keeps_gone:
  assumes "gone ident st"
  shows "gone ident (snd (handleDeleteDocument st auth k now))"
proof -
  from delete_state [of st auth k now] show ?thesis
  proof
    assume "snd (handleDeleteDocument st auth k now) = st"
    then show ?thesis using assms by simp
  next
    assume "\<exists>i. snd (handleDeleteDocument st auth k now) =
      st\<lparr>documents := splice1 i (documents st), otps := (otps st)(k := None)\<rparr>"
    then obtain i where st': "snd (handleDeleteDocument st auth k now) =
      st\<lparr>documents := splice1 i (documents st), otps := (otps st)(k := None)\<rparr>" by blast
    show ?thesis unfolding st' gone_def
      using assms set_splice1 [of i "documents st"] unfolding gone_def by auto
  qed
qed

lemma step_keeps_gone: "gone ident st \<Longrightarrow> gone ident (snd (doc_step st c))"
  by (cases c) (simp_all add: send_gone verify_keeps_gone delete_keeps_gone)

lemma run_gone:
  "gone ident st \<Longrightarrow> (VerifyOTP auth ident otp now, True) \<notin> set (doc_run st calls)"
proof (induction calls arbitrary: st)
  case Nil
  show ?case by simp
next
  case (Cons c calls)
  have head: "(VerifyOTP auth ident otp now, True) \<noteq> (c, fst (doc_step st c))"
  proof
    assume eq: "(VerifyOTP auth ident otp now, True) = (c, fst (doc_step st c))"
    have c: "c = VerifyOTP auth ident otp now" using eq by (simp only: prod.inject)
    have ok: "fst (doc_step st (VerifyOTP auth ident otp now))" using eq unfolding c by (simp only: prod.inject)
    have "success (fst (handleVerifyOTP st auth ident otp now))" using ok by simp
    then show False using verify_gone [OF Cons.prems] by blast
  qed
  have tail: "(VerifyOTP auth ident otp now, True) \<notin> set (doc_run (snd (doc_step st c)) calls)"
    by (rule Cons.IH [OF step_keeps_gone [OF Cons.prems]])
  show ?case
  proof
    assume "(VerifyOTP auth ident otp now, True) \<in> set (doc_run st (c # calls))"
    then have "(VerifyOTP auth ident otp now, True) \<in>
        insert (c, fst (doc_step st c)) (set (doc_run (snd (doc_step st c)) calls))"
      by (simp only: doc_run.simps list.set)
    then show False
    proof (rule insertE)
      assume "(VerifyOTP auth ident otp now, True) = (c, fst (doc_step st c))"
      with head show False by (rule notE)
    next
      assume "(VerifyOTP auth ident otp now, True) \<in> set (doc_run (snd (doc_step st c)) calls)"
      with tail show False by (rule notE)
    qed
  qed
qed

lemma delete_success:
  assumes "success (fst (handleDeleteDocument st auth ident now))"
  shows "\<exists>uid i. findIndex (\<lambda>d. doc_id d = ident \<and> userId d = uid) (documents st) = Some i \<and>
           snd (handleDeleteDocument st auth ident now) =
             st\<lparr>documents := splice1 i (documents st), otps := (otps st)(ident := None)\<rparr>"
proof (cases "authenticated auth now")
  case None
  then show ?thesis using assms by (simp add: handleDeleteDocument_def doc_reply_def)
next
  case (Some uid)
  show ?thesis
  proof (cases "findIndex (\<lambda>d. doc_id d = ident \<and> userId d = uid) (documents st)")
    case None
    then show ?thesis using assms Some by (simp add: handleDeleteDocument_def doc_reply_def)
  next
    case (Some i)
    then have "snd (handleDeleteDocument st auth ident now) =
             st\<lparr>documents := splice1 i (documents st), otps := (otps st)(ident := None)\<rparr>"
      using \<open>authenticated auth now = Some uid\<close> by (simp add: handleDeleteDocument_def)
    then show ?thesis using Some by blast
  qed
qed

text \<open>
  Claim C10. A successful \<open>handleDeleteDocument\<close> (document ids distinct, as they are
  generated) removes exactly the found document from the list, deletes the pending code
  stored for its id, and leaves every other pending code, the users and the download
  codes as they were; afterwards no run of send-code, verify-code and delete requests
  contains a successful verification for the deleted id.
\<close>

theorem delete_removes_pending_code:
  assumes dist: "distinct (map doc_id (documents st))"
      and ok: "success (fst (handleDeleteDocument st auth ident now))"
  shows "(\<exists>i < length (documents st). doc_id (documents st ! i) = ident \<and>
            documents (snd (handleDeleteDocument st auth ident now)) =
              take i (documents st) @ drop (Suc i) (documents st)) \<and>
         otps (snd (handleDeleteDocument st auth ident now)) ident = None \<and>
         (\<forall>k. k \<noteq> ident \<longrightarrow> otps (snd (handleDeleteDocument st auth ident now)) k = otps st k) \<and>
         users (snd (handleDeleteDocument st auth ident now)) = users st \<and>
         downloadOTPs (snd (handleDeleteDocument st auth ident now)) = downloadOTPs st \<and>
         (\<forall>calls a otp n.
            (VerifyOTP a ident otp n, True) \<notin>
              set (doc_run (snd (handleDeleteDocument st auth ident now)) calls))"
proof -
  let ?st' = "snd (handleDeleteDocument st auth ident now)"
  obtain uid i where i: "findIndex (\<lambda>d. doc_id d = ident \<and> userId d = uid) (documents st) = Some i"
    and st': "?st' = st\<lparr>documents := splice1 i (documents st), otps := (otps st)(ident := None)\<rparr>"
    using delete_success [OF ok] by blast
  have il: "i < length (documents st)" and iid: "doc_id (documents st ! i) = ident"
    using findIndex_Some [OF i] by simp_all
  have docs: "documents ?st' = take i (documents st) @ drop (Suc i) (documents st)"
    unfolding st' by (simp add: splice1_def)
  have 1: "\<exists>i < length (documents st). doc_id (documents st ! i) = ident \<and>
            documents ?st' = take i (documents st) @ drop (Suc i) (documents st)"
    using il iid docs by blast
  have 2: "otps ?st' ident = None" unfolding st' by simp
  have 3: "\<forall>k. k \<noteq> ident \<longrightarrow> otps ?st' k = otps st k" unfolding st' by simp
  have 4: "users ?st' = users st" unfolding st' by simp
  have 5: "downloadOTPs ?st' = downloadOTPs st" unfolding st' by simp
  have "\<forall>d \<in> set (splice1 i (documents st)). doc_id d \<noteq> ident"
    using splice1_distinct_key [OF dist il] iid by metis
  then have "\<forall>d \<in> set (documents ?st'). doc_id d \<noteq> ident" unfolding st' by simp
  then have g: "gone ident ?st'" using 2 unfolding gone_def by blast
  have 6: "\<forall>calls a otp n. (VerifyOTP a ident otp n, True) \<notin> set (doc_run ?st' calls)"
    using run_gone [OF g] by blast
  show ?thesis
    by (intro conjI 1 2 3 4 5 6)
qed

lemma authenticated_example: "authenticated (Claims ''u1'' 1735819200000) 1735732920000 = Some ''u1''"
  by (simp add: authenticated_def getUserFromToken_def)

lemma delete_example:
  "handleDeleteDocument dev_st2 (Claims ''u1'' 1735819200000) ''1735732800000k3j9x2m1a'' 1735732920000 =
     (doc_reply 200 True ''Document deleted successfully'' (Some doc1),
      dev_st2\<lparr>documents := [doc2],
              otps := (otps dev_st2)(''1735732800000k3j9x2m1a'' := None)\<rparr>)"
  by (simp add: handleDeleteDocument_def authenticated_example dev_st2_def doc1_def doc2_def
        splice1_def)

text \<open>The theorem for two documents with a pending code each, the first being deleted.\<close>

theorem delete_removes_pending_code_witness:
  "otps (snd (handleDeleteDocument dev_st2 (Claims ''u1'' 1735819200000)
            ''1735732800000k3j9x2m1a'' 1735732920000)) ''1735732800000k3j9x2m1a'' = None \<and>
   otps (snd (handleDeleteDocument dev_st2 (Claims ''u1'' 1735819200000)
            ''1735732800000k3j9x2m1a'' 1735732920000)) ''1735732805000z8y7x6w5v'' =
     otps dev_st2 ''1735732805000z8y7x6w5v'' \<and>
   (VerifyOTP (Claims ''u1'' 1735819200000) ''1735732800000k3j9x2m1a'' ''123456'' 1735732930000, True)
     \<notin> set (doc_run (snd (handleDeleteDocument dev_st2 (Claims ''u1'' 1735819200000)
                          ''1735732800000k3j9x2m1a'' 1735732920000))
               [VerifyOTP (Claims ''u1'' 1735819200000) ''1735732800000k3j9x2m1a'' ''123456''
                  1735732930000])"
proof -
  have dist: "distinct (map doc_id (documents dev_st2))"
    by (simp add: dev_st2_def doc1_def doc2_def)
  have ok: "success (fst (handleDeleteDocument dev_st2 (Claims ''u1'' 1735819200000)
            ''1735732800000k3j9x2m1a'' 1735732920000))"
    by (simp add: delete_example doc_reply_def)
  have ne: "''1735732805000z8y7x6w5v'' \<noteq> ''1735732800000k3j9x2m1a''" by simp
  note th = delete_removes_pending_code [OF dist ok]
  note a = th [THEN conjunct2, THEN conjunct1]
  note b = th [THEN conjunct2, THEN conjunct2, THEN conjunct1, rule_format, OF ne]
  note c = th [THEN conjunct2, THEN conjunct2, THEN conjunct2, THEN conjunct2, THEN conjunct2,
               rule_format]
  show ?thesis by (intro conjI a b c)
qed

end
